theory Spec2Isabelle
  imports Complex_Main "HOL-Library.Word" "HOL-Library.Log_Nat"
begin

section \<open>The ELTT chain engine (ELTT-Blockchain.py)\<close>

text \<open>
  Conventions of the embedding.
  \<^item> A Python \<open>str\<close> is the list of its code points (\<open>pystr\<close>), so \<open>length\<close> counts code
    points as Python's \<open>len\<close> does; \<open>py\<close> turns a literal into such a list.
  \<^item> A Python \<open>bytes\<close> value is a list of 8-bit words.
  \<^item> A Python \<open>int\<close> is an \<open>int\<close>.
  \<^item> A Python \<open>float\<close> is the \<open>real\<close> it denotes.  Comparisons are exact; \<open>+\<close>, \<open>-\<close> and
    \<open>/\<close> on floats are \<open>fadd\<close>, \<open>fsub\<close> and \<open>fdiv\<close>, which round the exact result to the
    nearest IEEE-754 double, ties to even.  Infinities, NaN and results beyond the range
    of doubles are outside the embedding.
  \<^item> The standard-library functions \<open>hashlib.sha256(...).digest()\<close> and
    \<open>struct.pack("!d", ...)\<close> are parameters \<open>sha256\<close> and \<open>pack_d\<close> of the functions
    that call them.
  \<^item> A raised exception is the \<open>Inl\<close> branch of a sum; a function that mutates the
    \<open>Blockchain\<close> aggregate returns the new aggregate.  No two wallets share a list object.
\<close>

type_synonym byte = "8 word"
type_synonym bytes = "byte list"

datatype py_error = IndexError | KeyError | StructError | UnicodeEncodeError

type_synonym pystr = "nat list"

definition py :: "string \<Rightarrow> pystr" where
  "py s = map of_char s"

subsection \<open>Python floats\<close>

text \<open>Rounding a real to the nearest integer, a tie going to the even one.\<close>

definition round_half_even :: "real \<Rightarrow> int" where
  "round_half_even r =
     (let f = \<lfloor>r\<rfloor>; d = r - of_int f
      in if d < 1 / 2 then f
         else if 1 / 2 < d then f + 1
         else if even f then f else f + 1)"

text \<open>The exponent \<open>e\<close> with \<open>2 ^ e \<le> |x| < 2 ^ (e + 1)\<close>, for \<open>x \<noteq> 0\<close>: one less than the
  number of bits of the integer part when \<open>|x| \<ge> 1\<close>, and counted from the reciprocal
  otherwise.\<close>

definition float_exponent :: "real \<Rightarrow> int" where
  "float_exponent x =
     (if 1 \<le> \<bar>x\<bar> then bitlen \<lfloor>\<bar>x\<bar>\<rfloor> - 1 else - bitlen (\<lceil>1 / \<bar>x\<bar>\<rceil> - 1))"

text \<open>Rounding to binary64: 53 significant bits, least exponent \<open>-1022\<close> (below it the
  spacing of the subnormal numbers stays \<open>2 ^ -1074\<close>).\<close>

definition round_double :: "real \<Rightarrow> real" where
  "round_double x =
     (if x = 0 then 0
      else
        (let e = max (float_exponent x) (- 1022);
             q = 2 powi (e - 52)
         in of_int (round_half_even (x / q)) * q))"

definition fadd :: "real \<Rightarrow> real \<Rightarrow> real" where
  "fadd a b = round_double (a + b)"

definition fsub :: "real \<Rightarrow> real \<Rightarrow> real" where
  "fsub a b = round_double (a - b)"

definition fdiv :: "real \<Rightarrow> real \<Rightarrow> real" where
  "fdiv a b = round_double (a / b)"

text \<open>\<open>float(n)\<close> for an \<open>int\<close>.\<close>

definition float_of_int :: "int \<Rightarrow> real" where
  "float_of_int n = round_double (of_int n)"

subsection \<open>Constants and limits\<close>

definition ELTT_MAX_TOKEN_SYMBOL_LEN :: nat where "ELTT_MAX_TOKEN_SYMBOL_LEN = 16"
definition ELTT_MAX_TOKEN_NAME_LEN :: nat where "ELTT_MAX_TOKEN_NAME_LEN = 64"
definition ELTT_MAX_TOKEN_TYPES :: nat where "ELTT_MAX_TOKEN_TYPES = 64"
definition ELTT_MAX_WALLETS :: nat where "ELTT_MAX_WALLETS = 1024"

subsection \<open>Data structures\<close>

record TokenType =
  name :: pystr
  symbol :: pystr
  decimals :: int
  kind :: pystr
  energy_binding_factor :: real

record LiquidityPool =
  token_x_index :: int
  token_y_index :: int
  reserve_x :: real
  reserve_y :: real
  lp_token_index :: int

record StakingPosition =
  owner :: pystr
  token_index :: int
  amount :: real
  start_timestamp :: int
  lock_until :: int
  accumulated_rewards :: real

record Wallet =
  address :: pystr
  token_count :: int
  tokens :: "TokenType list"
  balances :: "real list"

text \<open>\<open>TxKind\<close> is a class of string constants; \<open>Transaction.kind\<close> is a \<open>str\<close>.\<close>

definition TRANSFER :: pystr where "TRANSFER = py ''TRANSFER''"
definition MINT :: pystr where "MINT = py ''MINT''"
definition BURN :: pystr where "BURN = py ''BURN''"
definition CREATE_TOKEN :: pystr where "CREATE_TOKEN = py ''CREATE_TOKEN''"
definition CREATE_POOL :: pystr where "CREATE_POOL = py ''CREATE_POOL''"
definition ADD_LIQUIDITY :: pystr where "ADD_LIQUIDITY = py ''ADD_LIQUIDITY''"
definition REMOVE_LIQUIDITY :: pystr where "REMOVE_LIQUIDITY = py ''REMOVE_LIQUIDITY''"
definition STAKE :: pystr where "STAKE = py ''STAKE''"
definition UNSTAKE :: pystr where "UNSTAKE = py ''UNSTAKE''"
definition CLAIM_REWARDS :: pystr where "CLAIM_REWARDS = py ''CLAIM_REWARDS''"
definition SWAP :: pystr where "SWAP = py ''SWAP''"
definition PROFILE_UPDATE :: pystr where "PROFILE_UPDATE = py ''PROFILE_UPDATE''"
definition GOVERNANCE_PROPOSAL :: pystr where "GOVERNANCE_PROPOSAL = py ''GOVERNANCE_PROPOSAL''"

record Transaction =
  from_address :: pystr
  to_address :: pystr
  amount :: real
  token_index :: int
  kind :: pystr
  memo :: pystr

record Block =
  index :: int
  timestamp :: int
  prev_hash :: bytes
  hash :: bytes
  txs :: "Transaction list"

record Blockchain =
  blocks :: "Block list"
  wallets :: "Wallet list"
  token_types :: "TokenType list"
  pools :: "LiquidityPool list"
  stakes :: "StakingPosition list"

subsection \<open>Python list indexing\<close>

text \<open>\<open>xs[i]\<close>: a negative index counts from the end; out of range raises IndexError.
  \<open>py_index\<close> gives the position that \<open>xs[i]\<close> denotes, if any.\<close>

definition py_index :: "'a list \<Rightarrow> int \<Rightarrow> nat option" where
  "py_index xs i =
     (let n = int (length xs)
      in if 0 \<le> i \<and> i < n then Some (nat i)
         else if - n \<le> i \<and> i < 0 then Some (nat (n + i))
         else None)"

subsection \<open>Hashing and serialization\<close>

text \<open>\<open>n.to_bytes(w, "big")\<close> for \<open>0 \<le> n < 256 ^ w\<close>.\<close>

definition be_bytes :: "nat \<Rightarrow> int \<Rightarrow> bytes" where
  "be_bytes w n = map (\<lambda>k. word_of_int (n div 256 ^ k)) (rev [0..<w])"

text \<open>\<open>struct.pack("!I", n)\<close>, \<open>struct.pack("!Q", n)\<close> and \<open>struct.pack("!i", n)\<close>:
  struct.error when \<open>n\<close> does not fit the field.\<close>

definition pack_I :: "int \<Rightarrow> py_error + bytes" where
  "pack_I n = (if 0 \<le> n \<and> n < 2 ^ 32 then Inr (be_bytes 4 n) else Inl StructError)"

definition pack_Q :: "int \<Rightarrow> py_error + bytes" where
  "pack_Q n = (if 0 \<le> n \<and> n < 2 ^ 64 then Inr (be_bytes 8 n) else Inl StructError)"

definition pack_i :: "int \<Rightarrow> py_error + bytes" where
  "pack_i n = (if - (2 ^ 31) \<le> n \<and> n < 2 ^ 31 then Inr (be_bytes 4 n) else Inl StructError)"

text \<open>\<open>s.encode("utf-8")\<close>: one to four bytes per code point; a surrogate (U+D800 to
  U+DFFF) raises UnicodeEncodeError.  A number from U+110000 on is no code point of a
  Python \<open>str\<close>; it is given the same error.\<close>

definition utf8_char :: "nat \<Rightarrow> py_error + bytes" where
  "utf8_char n =
     (if n < 128 then Inr [of_nat n]
      else if n < 2048 then Inr [of_nat (192 + n div 64), of_nat (128 + n mod 64)]
      else if n < 65536 then
        (if 55296 \<le> n \<and> n \<le> 57343 then Inl UnicodeEncodeError
         else Inr [of_nat (224 + n div 4096), of_nat (128 + n div 64 mod 64),
                   of_nat (128 + n mod 64)])
      else if n < 1114112 then
        Inr [of_nat (240 + n div 262144), of_nat (128 + n div 4096 mod 64),
             of_nat (128 + n div 64 mod 64), of_nat (128 + n mod 64)]
      else Inl UnicodeEncodeError)"

fun utf8 :: "pystr \<Rightarrow> py_error + bytes" where
  "utf8 [] = Inr []"
| "utf8 (c # cs) =
     (case utf8_char c of
        Inl e \<Rightarrow> Inl e
      | Inr b \<Rightarrow> (case utf8 cs of Inl e \<Rightarrow> Inl e | Inr bs \<Rightarrow> Inr (b @ bs)))"

definition kind_table :: "(pystr \<times> int) list" where
  "kind_table =
     [(TRANSFER, 0), (MINT, 1), (BURN, 2), (CREATE_TOKEN, 3), (CREATE_POOL, 4),
      (ADD_LIQUIDITY, 5), (REMOVE_LIQUIDITY, 6), (STAKE, 7), (UNSTAKE, 8),
      (CLAIM_REWARDS, 9), (SWAP, 10), (PROFILE_UPDATE, 11), (GOVERNANCE_PROPOSAL, 12)]"

definition serialize_transaction :: "(real \<Rightarrow> bytes) \<Rightarrow> Transaction \<Rightarrow> py_error + bytes" where
  "serialize_transaction pack_d tx =
     (case utf8 (from_address tx) of
        Inl e \<Rightarrow> Inl e
      | Inr fb \<Rightarrow>
     (case utf8 (to_address tx) of
        Inl e \<Rightarrow> Inl e
      | Inr tb \<Rightarrow>
     (case utf8 (memo tx) of
        Inl e \<Rightarrow> Inl e
      | Inr mb \<Rightarrow>
     (let from_bytes = fb @ [0];
          to_bytes = tb @ [0];
          memo_bytes = mb @ [0]
      in case pack_i (token_index tx) of
           Inl e \<Rightarrow> Inl e
         | Inr ti \<Rightarrow>
            (case map_of kind_table (kind tx) of
               None \<Rightarrow> Inl KeyError
             | Some k \<Rightarrow>
                (case pack_i k of
                   Inl e \<Rightarrow> Inl e
                 | Inr kb \<Rightarrow>
                     Inr (from_bytes @ to_bytes @ pack_d (amount tx) @ ti @ kb @ memo_bytes)))))))"

definition serialize_block_header :: "Block \<Rightarrow> py_error + bytes" where
  "serialize_block_header block =
     (case pack_I (index block) of
        Inl e \<Rightarrow> Inl e
      | Inr ib \<Rightarrow>
         (case pack_Q (timestamp block) of
            Inl e \<Rightarrow> Inl e
          | Inr tb \<Rightarrow>
             (case pack_Q (int (length (txs block))) of
                Inl e \<Rightarrow> Inl e
              | Inr cb \<Rightarrow> Inr (ib @ tb @ prev_hash block @ cb))))"

definition compute_block_hash :: "(bytes \<Rightarrow> bytes) \<Rightarrow> Block \<Rightarrow> py_error + bytes" where
  "compute_block_hash sha256 block =
     (case serialize_block_header block of
        Inl e \<Rightarrow> Inl e
      | Inr header \<Rightarrow> Inr (sha256 header))"

subsection \<open>Energy formula\<close>

definition si_byte_value_from_size :: "int \<Rightarrow> real" where
  "si_byte_value_from_size sz = (if sz \<le> 0 then 0 else float_of_int sz)"

definition binary_byte_value_from_size :: "int \<Rightarrow> real" where
  "binary_byte_value_from_size sz = (if sz \<le> 0 then 0 else float_of_int sz)"

text \<open>\<open>int.from_bytes(bs, "big")\<close>.\<close>

definition int_from_bytes :: "bytes \<Rightarrow> int" where
  "int_from_bytes bs = foldl (\<lambda>acc b. acc * 256 + uint b) 0 bs"

definition compute_tx_energy ::
  "(bytes \<Rightarrow> bytes) \<Rightarrow> (real \<Rightarrow> bytes) \<Rightarrow> Transaction \<Rightarrow> py_error + real" where
  "compute_tx_energy sha256 pack_d tx =
     (case serialize_transaction pack_d tx of
        Inl e \<Rightarrow> Inl e
      | Inr serialized \<Rightarrow>
         (let si_value = si_byte_value_from_size (int (length serialized));
              bin_value = binary_byte_value_from_size (int (length serialized));
              h = sha256 serialized;
              last8 = int_from_bytes (take 8 (drop 24 h));
              frac = fdiv (float_of_int (last8 mod 1000000000)) 1000000000
          in Inr (fadd (fadd si_value bin_value) frac)))"

subsection \<open>Wallet and token logic\<close>

text \<open>The loop of \<open>_find_wallet_index\<close>, started at position \<open>i\<close>.\<close>

fun find_wallet_from :: "Wallet list \<Rightarrow> pystr \<Rightarrow> int \<Rightarrow> int" where
  "find_wallet_from [] a i = - 1"
| "find_wallet_from (w # ws) a i = (if address w = a then i else find_wallet_from ws a (i + 1))"

definition find_wallet_index :: "Blockchain \<Rightarrow> pystr \<Rightarrow> int" where
  "find_wallet_index bc a = find_wallet_from (wallets bc) a 0"

definition add_wallet :: "Blockchain \<Rightarrow> pystr \<Rightarrow> int \<times> Blockchain" where
  "add_wallet bc a =
     (if length (wallets bc) \<ge> ELTT_MAX_WALLETS then (- 1, bc)
      else
        (let w = \<lparr>address = a,
                  token_count = int (length (token_types bc)),
                  tokens = token_types bc,
                  balances = replicate (length (token_types bc)) 0\<rparr>;
             bc' = bc\<lparr>wallets := wallets bc @ [w]\<rparr>
         in (int (length (wallets bc')) - 1, bc')))"

definition find_or_create_wallet :: "Blockchain \<Rightarrow> pystr \<Rightarrow> int \<times> Blockchain" where
  "find_or_create_wallet bc a =
     (let idx = find_wallet_index bc a
      in if idx \<ge> 0 then (idx, bc) else add_wallet bc a)"

definition add_token_type ::
  "Blockchain \<Rightarrow> pystr \<Rightarrow> pystr \<Rightarrow> int \<Rightarrow> pystr \<Rightarrow> real \<Rightarrow> int \<times> Blockchain" where
  "add_token_type bc nm smb dec knd ebf =
     (if length (token_types bc) \<ge> ELTT_MAX_TOKEN_TYPES then (- 1, bc)
      else
        (let t = \<lparr>name = take ELTT_MAX_TOKEN_NAME_LEN nm,
                  symbol = take ELTT_MAX_TOKEN_SYMBOL_LEN smb,
                  decimals = dec,
                  kind = knd,
                  energy_binding_factor = ebf\<rparr>;
             tts = token_types bc @ [t];
             ws = map (\<lambda>w. w\<lparr>tokens := tts,
                                balances := balances w @ [0],
                                token_count := int (length tts)\<rparr>) (wallets bc)
         in (int (length tts) - 1, bc\<lparr>token_types := tts, wallets := ws\<rparr>)))"

subsection \<open>Transaction validation and application\<close>

text \<open>\<open>bc.wallets[wi].balances[ti]\<close>, read.\<close>

definition balance_at :: "Blockchain \<Rightarrow> int \<Rightarrow> int \<Rightarrow> py_error + real" where
  "balance_at bc wi ti =
     (case py_index (wallets bc) wi of
        None \<Rightarrow> Inl IndexError
      | Some i \<Rightarrow>
         (case py_index (balances (wallets bc ! i)) ti of
            None \<Rightarrow> Inl IndexError
          | Some j \<Rightarrow> Inr (balances (wallets bc ! i) ! j)))"

text \<open>\<open>bc.wallets[wi].balances[ti] = op(bc.wallets[wi].balances[ti], a)\<close>: the common
  shape of the two augmented assignments.\<close>

definition balance_update ::
  "(real \<Rightarrow> real \<Rightarrow> real) \<Rightarrow> Blockchain \<Rightarrow> int \<Rightarrow> int \<Rightarrow> real \<Rightarrow> py_error + Blockchain" where
  "balance_update op bc wi ti a =
     (case py_index (wallets bc) wi of
        None \<Rightarrow> Inl IndexError
      | Some i \<Rightarrow>
         (let w = wallets bc ! i
          in case py_index (balances w) ti of
               None \<Rightarrow> Inl IndexError
             | Some j \<Rightarrow>
                Inr (bc\<lparr>wallets :=
                       (wallets bc)[i := w\<lparr>balances := (balances w)[j := op (balances w ! j) a]\<rparr>]\<rparr>)))"

text \<open>\<open>bc.wallets[wi].balances[ti] += a\<close> and \<open>bc.wallets[wi].balances[ti] -= a\<close>.\<close>

definition balance_iadd :: "Blockchain \<Rightarrow> int \<Rightarrow> int \<Rightarrow> real \<Rightarrow> py_error + Blockchain" where
  "balance_iadd bc wi ti a = balance_update fadd bc wi ti a"

definition balance_isub :: "Blockchain \<Rightarrow> int \<Rightarrow> int \<Rightarrow> real \<Rightarrow> py_error + Blockchain" where
  "balance_isub bc wi ti a = balance_update fsub bc wi ti a"

definition validate_transaction :: "Blockchain \<Rightarrow> Transaction \<Rightarrow> py_error + bool" where
  "validate_transaction bc tx =
     (if token_index tx < 0 \<or> token_index tx \<ge> int (length (token_types bc)) then Inr False
      else if amount tx < 0 then Inr False
      else
        (let from_idx = find_wallet_index bc (from_address tx);
             to_idx = find_wallet_index bc (to_address tx)
         in if kind tx \<in> set [TRANSFER, SWAP, STAKE] then
              (if from_idx < 0 then Inr False
               else case balance_at bc from_idx (token_index tx) of
                      Inl e \<Rightarrow> Inl e
                    | Inr bal \<Rightarrow>
                       (if bal < amount tx then Inr False
                        else if amount tx \<le> 0 then Inr False
                        else Inr True))
            else if kind tx = MINT then
              (if to_idx < 0 then Inr False
               else if amount tx \<le> 0 then Inr False
               else Inr True)
            else if kind tx = BURN then
              (if from_idx < 0 then Inr False
               else case balance_at bc from_idx (token_index tx) of
                      Inl e \<Rightarrow> Inl e
                    | Inr bal \<Rightarrow>
                       (if bal < amount tx then Inr False
                        else if amount tx \<le> 0 then Inr False
                        else Inr True))
            else Inr True))"

definition apply_transaction :: "Blockchain \<Rightarrow> Transaction \<Rightarrow> py_error + Blockchain" where
  "apply_transaction bc tx =
     (let (from_idx, bc1) = find_or_create_wallet bc (from_address tx);
          (to_idx, bc2) = find_or_create_wallet bc1 (to_address tx)
      in if kind tx \<in> set [TRANSFER, SWAP] then
           (case balance_isub bc2 from_idx (token_index tx) (amount tx) of
              Inl e \<Rightarrow> Inl e
            | Inr bc3 \<Rightarrow> balance_iadd bc3 to_idx (token_index tx) (amount tx))
         else if kind tx = MINT then balance_iadd bc2 to_idx (token_index tx) (amount tx)
         else if kind tx = BURN then balance_isub bc2 from_idx (token_index tx) (amount tx)
         else Inr bc2)"

subsection \<open>Block validation and chain construction\<close>

text \<open>The loop \<open>for tx in block.txs: if not _validate_transaction(bc, tx): return False\<close>.\<close>

fun validate_txs :: "Blockchain \<Rightarrow> Transaction list \<Rightarrow> py_error + bool" where
  "validate_txs bc [] = Inr True"
| "validate_txs bc (tx # rest) =
     (case validate_transaction bc tx of
        Inl e \<Rightarrow> Inl e
      | Inr ok \<Rightarrow> if \<not> ok then Inr False else validate_txs bc rest)"

definition zero_hash :: bytes where
  "zero_hash = replicate 32 0"

definition validate_block :: "(bytes \<Rightarrow> bytes) \<Rightarrow> Blockchain \<Rightarrow> Block \<Rightarrow> py_error + bool" where
  "validate_block sha256 bc block =
     (if (if index block = 0 then prev_hash block \<noteq> zero_hash
          else blocks bc = [] \<or> index block \<noteq> index (last (blocks bc)) + 1
               \<or> prev_hash block \<noteq> hash (last (blocks bc)))
      then Inr False
      else
        (let tmp = \<lparr>index = index block, timestamp = timestamp block,
                    prev_hash = prev_hash block, hash = [], txs = txs block\<rparr>
         in case compute_block_hash sha256 tmp of
              Inl e \<Rightarrow> Inl e
            | Inr h \<Rightarrow> if h \<noteq> hash block then Inr False else validate_txs bc (txs block)))"

text \<open>The loop \<open>for tx in block.txs: _apply_transaction(bc, tx)\<close>.\<close>

fun apply_txs :: "Blockchain \<Rightarrow> Transaction list \<Rightarrow> py_error + Blockchain" where
  "apply_txs bc [] = Inr bc"
| "apply_txs bc (tx # rest) =
     (case apply_transaction bc tx of
        Inl e \<Rightarrow> Inl e
      | Inr bc' \<Rightarrow> apply_txs bc' rest)"

definition append_block ::
  "(bytes \<Rightarrow> bytes) \<Rightarrow> Blockchain \<Rightarrow> Block \<Rightarrow> py_error + (bool \<times> Blockchain)" where
  "append_block sha256 bc block =
     (case validate_block sha256 bc block of
        Inl e \<Rightarrow> Inl e
      | Inr ok \<Rightarrow>
         if \<not> ok then Inr (False, bc)
         else
           (case apply_txs (bc\<lparr>blocks := blocks bc @ [block]\<rparr>) (txs block) of
              Inl e \<Rightarrow> Inl e
            | Inr bc' \<Rightarrow> Inr (True, bc')))"

subsection \<open>Genesis\<close>

definition build_genesis_block :: "(bytes \<Rightarrow> bytes) \<Rightarrow> pystr \<Rightarrow> int \<Rightarrow> py_error + Block" where
  "build_genesis_block sha256 owner_address ts =
     (let block = \<lparr>index = 0, timestamp = ts, prev_hash = zero_hash, hash = [], txs = []\<rparr>
      in case compute_block_hash sha256 block of
           Inl e \<Rightarrow> Inl e
         | Inr h \<Rightarrow> Inr (block\<lparr>hash := h\<rparr>))"

section \<open>The full-state validator (ELTT-Validator.py)\<close>

text \<open>
  The validator module declares its own frozen dataclasses; here their fields carry the
  prefix \<open>v_\<close>.  \<open>TokenKind\<close> and \<open>TxKind\<close> are \<open>Enum\<close> classes in this module.  The
  built-in \<open>hash\<close> applied to the fingerprint tuple is the parameter \<open>py_hash\<close>.
\<close>

definition ELTT_MAX_ADDRESS_LEN :: nat where "ELTT_MAX_ADDRESS_LEN = 64"
definition ELTT_MAX_TX_PER_BLOCK :: nat where "ELTT_MAX_TX_PER_BLOCK = 256"

datatype TokenKind = TK_TTTC | TK_ELTT | TK_ELTC | TK_GENERIC | TK_LP

datatype TxKind =
    K_TRANSFER | K_MINT | K_BURN | K_CREATE_TOKEN | K_CREATE_POOL | K_ADD_LIQUIDITY
  | K_REMOVE_LIQUIDITY | K_STAKE | K_UNSTAKE | K_CLAIM_REWARDS | K_SWAP | K_PROFILE_UPDATE
  | K_GOVERNANCE_PROPOSAL

text \<open>The members of \<open>TxKind\<close>, in declaration order, and \<open>member.value\<close>.\<close>

definition TxKind_members :: "TxKind list" where
  "TxKind_members =
     [K_TRANSFER, K_MINT, K_BURN, K_CREATE_TOKEN, K_CREATE_POOL, K_ADD_LIQUIDITY,
      K_REMOVE_LIQUIDITY, K_STAKE, K_UNSTAKE, K_CLAIM_REWARDS, K_SWAP, K_PROFILE_UPDATE,
      K_GOVERNANCE_PROPOSAL]"

fun TxKind_value :: "TxKind \<Rightarrow> string" where
  "TxKind_value K_TRANSFER = ''TRANSFER''"
| "TxKind_value K_MINT = ''MINT''"
| "TxKind_value K_BURN = ''BURN''"
| "TxKind_value K_CREATE_TOKEN = ''CREATE_TOKEN''"
| "TxKind_value K_CREATE_POOL = ''CREATE_POOL''"
| "TxKind_value K_ADD_LIQUIDITY = ''ADD_LIQUIDITY''"
| "TxKind_value K_REMOVE_LIQUIDITY = ''REMOVE_LIQUIDITY''"
| "TxKind_value K_STAKE = ''STAKE''"
| "TxKind_value K_UNSTAKE = ''UNSTAKE''"
| "TxKind_value K_CLAIM_REWARDS = ''CLAIM_REWARDS''"
| "TxKind_value K_SWAP = ''SWAP''"
| "TxKind_value K_PROFILE_UPDATE = ''PROFILE_UPDATE''"
| "TxKind_value K_GOVERNANCE_PROPOSAL = ''GOVERNANCE_PROPOSAL''"

record V_TokenType =
  v_name :: string
  v_symbol :: string
  v_decimals :: int
  v_token_kind :: TokenKind
  v_energy_binding_factor :: real

record V_Wallet =
  v_address :: string
  v_token_count :: int
  v_tokens :: "V_TokenType list"
  v_balances :: "real list"

record V_Transaction =
  v_from_address :: string
  v_to_address :: string
  v_amount :: real
  v_token_index :: int
  v_kind :: TxKind
  v_memo :: string

record V_Block =
  v_index :: int
  v_timestamp :: int
  v_prev_hash :: bytes
  v_hash :: bytes
  v_txs :: "V_Transaction list"

record V_LiquidityPool =
  v_token_x_index :: int
  v_token_y_index :: int
  v_reserve_x :: real
  v_reserve_y :: real
  v_lp_token_index :: int

record V_StakingPosition =
  v_owner :: string
  v_stake_token_index :: int
  v_stake_amount :: real
  v_start_timestamp :: int
  v_lock_until :: int
  v_accumulated_rewards :: real

record BlockchainState =
  v_blocks :: "V_Block list"
  v_wallets :: "V_Wallet list"
  v_token_types :: "V_TokenType list"
  v_pools :: "V_LiquidityPool list"
  v_stakes :: "V_StakingPosition list"

datatype ValidatorError =
    OK | NULL_BLOCKCHAIN | NO_BLOCKS
  | GENESIS_PREV_HASH | BLOCK_INDEX_SEQUENCE | BLOCK_PREV_HASH_MISMATCH | BLOCK_HASH_MISMATCH
  | TIMESTAMP_NON_MONOTONIC
  | TOKEN_SYMBOL_DUPLICATE | WALLET_ADDRESS_INVALID | WALLET_BALANCE_NEGATIVE
  | POOL_INDEX_INVALID | POOL_RESERVE_NEGATIVE
  | STAKE_OWNER_INVALID | STAKE_AMOUNT_NEGATIVE | STAKE_TIME_INCONSISTENT
  | TX_TOKEN_INDEX_INVALID | TX_AMOUNT_NEGATIVE | TX_KIND_INVALID | TX_REPLAY_DUPLICATE_IN_BLOCK
  | UNKNOWN

text \<open>The loop \<open>for ch in addr\<close> of \<open>_is_address_valid\<close>.\<close>

fun address_chars_valid :: "string \<Rightarrow> bool" where
  "address_chars_valid [] = True"
| "address_chars_valid (ch # rest) =
     (let c = (of_char ch :: nat)
      in if c < 32 \<or> c = 127 then False else address_chars_valid rest)"

definition is_address_valid :: "string \<Rightarrow> bool" where
  "is_address_valid addr =
     (if length addr = 0 \<or> length addr \<ge> ELTT_MAX_ADDRESS_LEN then False
      else address_chars_valid addr)"

definition check_token_symbols_unique :: "BlockchainState \<Rightarrow> bool" where
  "check_token_symbols_unique state =
     (let symbols = map v_symbol (v_token_types state)
      in length symbols = card (set symbols))"

text \<open>The slice \<open>xs[:n]\<close>; a negative \<open>n\<close> counts from the end.\<close>

definition py_slice_to :: "'a list \<Rightarrow> int \<Rightarrow> 'a list" where
  "py_slice_to xs n = (if 0 \<le> n then take (nat n) xs else take (nat (int (length xs) + n)) xs)"

fun check_wallets_loop :: "BlockchainState \<Rightarrow> V_Wallet list \<Rightarrow> ValidatorError option" where
  "check_wallets_loop state [] = None"
| "check_wallets_loop state (w # rest) =
     (if \<not> is_address_valid (v_address w) then Some WALLET_ADDRESS_INVALID
      else if v_token_count w > int (length (v_token_types state)) then Some TX_TOKEN_INDEX_INVALID
      else if list_ex (\<lambda>bal. bal < 0) (py_slice_to (v_balances w) (v_token_count w))
        then Some WALLET_BALANCE_NEGATIVE
      else check_wallets_loop state rest)"

definition check_wallets :: "BlockchainState \<Rightarrow> ValidatorError option" where
  "check_wallets state = check_wallets_loop state (v_wallets state)"

fun check_pools_loop :: "int \<Rightarrow> V_LiquidityPool list \<Rightarrow> ValidatorError option" where
  "check_pools_loop token_len [] = None"
| "check_pools_loop token_len (p # rest) =
     (if v_token_x_index p < 0 \<or> v_token_x_index p \<ge> token_len then Some POOL_INDEX_INVALID
      else if v_token_y_index p < 0 \<or> v_token_y_index p \<ge> token_len then Some POOL_INDEX_INVALID
      else if v_lp_token_index p < 0 \<or> v_lp_token_index p \<ge> token_len then Some POOL_INDEX_INVALID
      else if v_reserve_x p < 0 \<or> v_reserve_y p < 0 then Some POOL_RESERVE_NEGATIVE
      else check_pools_loop token_len rest)"

definition check_pools :: "BlockchainState \<Rightarrow> ValidatorError option" where
  "check_pools state = check_pools_loop (int (length (v_token_types state))) (v_pools state)"

fun check_stakes_loop :: "int \<Rightarrow> V_StakingPosition list \<Rightarrow> ValidatorError option" where
  "check_stakes_loop token_len [] = None"
| "check_stakes_loop token_len (s # rest) =
     (if \<not> is_address_valid (v_owner s) then Some STAKE_OWNER_INVALID
      else if v_stake_token_index s < 0 \<or> v_stake_token_index s \<ge> token_len
        then Some TX_TOKEN_INDEX_INVALID
      else if v_stake_amount s < 0 then Some STAKE_AMOUNT_NEGATIVE
      else if v_lock_until s < v_start_timestamp s then Some STAKE_TIME_INCONSISTENT
      else check_stakes_loop token_len rest)"

definition check_stakes :: "BlockchainState \<Rightarrow> ValidatorError option" where
  "check_stakes state = check_stakes_loop (int (length (v_token_types state))) (v_stakes state)"

type_synonym fingerprint = "string \<times> string \<times> int \<times> real \<times> string \<times> string"

definition tx_fingerprint :: "V_Transaction \<Rightarrow> fingerprint" where
  "tx_fingerprint tx =
     (v_from_address tx, v_to_address tx, v_token_index tx, v_amount tx,
      TxKind_value (v_kind tx), v_memo tx)"

text \<open>The loop of \<open>_check_block_transactions\<close>, with the list \<open>seen_hashes\<close> built so far.\<close>

fun check_txs_loop ::
  "(fingerprint \<Rightarrow> int) \<Rightarrow> BlockchainState \<Rightarrow> V_Transaction list \<Rightarrow> int list
     \<Rightarrow> ValidatorError option" where
  "check_txs_loop py_hash state [] seen_hashes = None"
| "check_txs_loop py_hash state (tx # rest) seen_hashes =
     (if v_token_index tx < 0 \<or> v_token_index tx \<ge> int (length (v_token_types state))
        then Some TX_TOKEN_INDEX_INVALID
      else if v_amount tx < 0 then Some TX_AMOUNT_NEGATIVE
      else if v_kind tx \<notin> set TxKind_members then Some TX_KIND_INVALID
      else if \<not> is_address_valid (v_from_address tx) then Some WALLET_ADDRESS_INVALID
      else if \<not> is_address_valid (v_to_address tx) then Some WALLET_ADDRESS_INVALID
      else
        (let h = py_hash (tx_fingerprint tx)
         in if h \<in> set seen_hashes then Some TX_REPLAY_DUPLICATE_IN_BLOCK
            else check_txs_loop py_hash state rest (seen_hashes @ [h])))"

definition check_block_transactions ::
  "(fingerprint \<Rightarrow> int) \<Rightarrow> BlockchainState \<Rightarrow> V_Block \<Rightarrow> ValidatorError option" where
  "check_block_transactions py_hash state blk =
     (if length (v_txs blk) > ELTT_MAX_TX_PER_BLOCK then Some UNKNOWN
      else check_txs_loop py_hash state (v_txs blk) [])"

text \<open>The loop of \<open>_check_chain\<close>: \<open>prev\<close> is \<open>None\<close> in the first iteration (\<open>i = 0\<close>)
  and \<open>state.blocks[i - 1]\<close> afterwards; \<open>last_ts\<close> is the loop variable of that name.\<close>

fun check_chain_loop ::
  "(fingerprint \<Rightarrow> int) \<Rightarrow> BlockchainState \<Rightarrow> V_Block option \<Rightarrow> int \<Rightarrow> V_Block list
     \<Rightarrow> ValidatorError option" where
  "check_chain_loop py_hash state prev last_ts [] = None"
| "check_chain_loop py_hash state prev last_ts (blk # rest) =
     (case (case prev of
              None \<Rightarrow> if v_prev_hash blk \<noteq> zero_hash then Some GENESIS_PREV_HASH else None
            | Some p \<Rightarrow>
                if v_index blk \<noteq> v_index p + 1 then Some BLOCK_INDEX_SEQUENCE
                else if v_prev_hash blk \<noteq> v_hash p then Some BLOCK_PREV_HASH_MISMATCH
                else None) of
        Some e \<Rightarrow> Some e
      | None \<Rightarrow>
         if prev \<noteq> None \<and> v_timestamp blk < last_ts then Some TIMESTAMP_NON_MONOTONIC
         else
           (case check_block_transactions py_hash state blk of
              Some tx_err \<Rightarrow> Some tx_err
            | None \<Rightarrow> check_chain_loop py_hash state (Some blk) (v_timestamp blk) rest))"

definition check_chain :: "(fingerprint \<Rightarrow> int) \<Rightarrow> BlockchainState \<Rightarrow> ValidatorError option" where
  "check_chain py_hash state =
     (if v_blocks state = [] then Some NO_BLOCKS
      else check_chain_loop py_hash state None 0 (v_blocks state))"

definition validate_blockchain ::
  "(fingerprint \<Rightarrow> int) \<Rightarrow> BlockchainState option \<Rightarrow> ValidatorError" where
  "validate_blockchain py_hash state_opt =
     (case state_opt of
        None \<Rightarrow> NULL_BLOCKCHAIN
      | Some state \<Rightarrow>
         if \<not> check_token_symbols_unique state then TOKEN_SYMBOL_DUPLICATE
         else
           (case check_wallets state of
              Some err \<Rightarrow> err
            | None \<Rightarrow>
               (case check_pools state of
                  Some err \<Rightarrow> err
                | None \<Rightarrow>
                   (case check_stakes state of
                      Some err \<Rightarrow> err
                    | None \<Rightarrow>
                       (case check_chain py_hash state of
                          Some err \<Rightarrow> err
                        | None \<Rightarrow> OK)))))"

section \<open>Vocabulary of the properties\<close>

text \<open>A 32-byte stand-in for the digest parameter, used where an example needs a
  concrete function of that length.\<close>

definition test_digest :: "bytes \<Rightarrow> bytes" where
  "test_digest m = replicate 31 0 @ [of_nat (length m)]"

text \<open>The data-model invariant that every wallet's balance vector is as long as the
  token-type list.\<close>

definition aligned :: "Blockchain \<Rightarrow> bool" where
  "aligned bc = list_all (\<lambda>w. length (balances w) = length (token_types bc)) (wallets bc)"

definition tx_a :: Transaction where
  "tx_a = \<lparr>from_address = py ''alice'', to_address = py ''bob'', amount = 10, token_index = 0,
           kind = TRANSFER, memo = py ''''\<rparr>"

definition tx_b :: Transaction where
  "tx_b = \<lparr>from_address = py ''carol'', to_address = py ''dave'', amount = 2, token_index = 1,
           kind = MINT, memo = py ''x''\<rparr>"

definition ex_token :: TokenType where
  "ex_token = \<lparr>name = py ''ELTT'', symbol = py ''ELTT'', decimals = 8, kind = py ''ELTT'',
               energy_binding_factor = 3 / 4\<rparr>"

text \<open>An aggregate with one token type, no blocks, and the wallets of alice (balance 10)
  and bob (balance 0).\<close>

definition ex_chain :: Blockchain where
  "ex_chain = \<lparr>blocks = [],
               wallets = [\<lparr>address = py ''alice'', token_count = 1, tokens = [ex_token],
                            balances = [10]\<rparr>,
                          \<lparr>address = py ''bob'', token_count = 1, tokens = [ex_token],
                            balances = [0]\<rparr>],
               token_types = [ex_token], pools = [], stakes = []\<rparr>"

text \<open>A genesis-shaped block (index 0, zero previous-hash) with timestamp \<open>ts\<close> and
  transactions \<open>ts_list\<close>, its stored hash being the digest of its own header.\<close>

definition hashed_block :: "(bytes \<Rightarrow> bytes) \<Rightarrow> int \<Rightarrow> Transaction list \<Rightarrow> Block" where
  "hashed_block sha256 ts tx_list =
     \<lparr>index = 0, timestamp = ts, prev_hash = zero_hash,
      hash = sha256 (be_bytes 4 0 @ be_bytes 8 ts @ zero_hash @ be_bytes 8 (int (length tx_list))),
      txs = tx_list\<rparr>"

text \<open>The aggregate that \<open>Blockchain()\<close> constructs.\<close>

definition empty_chain :: Blockchain where
  "empty_chain = \<lparr>blocks = [], wallets = [], token_types = [], pools = [], stakes = []\<rparr>"

definition tx_over :: Transaction where
  "tx_over = \<lparr>from_address = py ''alice'', to_address = py ''bob'', amount = 100, token_index = 0,
              kind = TRANSFER, memo = py ''''\<rparr>"

text \<open>The balance a wallet holds of token \<open>k\<close> (0 where its vector has no entry \<open>k\<close>), and
  the sum of that token's balance over all wallets.\<close>

definition balance_of :: "Wallet \<Rightarrow> nat \<Rightarrow> real" where
  "balance_of w k = (if k < length (balances w) then balances w ! k else 0)"

definition total_balance :: "Blockchain \<Rightarrow> nat \<Rightarrow> real" where
  "total_balance bc k = sum_list (map (\<lambda>w. balance_of w k) (wallets bc))"


text \<open>A wallet after \<open>balances[t] = op(balances[t], a)\<close>, for an index \<open>t\<close> within its
  vector: \<open>adjust fsub\<close> is the debit \<open>-=\<close> and \<open>adjust fadd\<close> the credit \<open>+=\<close>.\<close>

definition adjust :: "(real \<Rightarrow> real \<Rightarrow> real) \<Rightarrow> Wallet \<Rightarrow> nat \<Rightarrow> real \<Rightarrow> Wallet" where
  "adjust op w t a = w\<lparr>balances := (balances w)[t := op (balances w ! t) a]\<rparr>"




text \<open>The balance of token \<open>t\<close> in the wallet that \<open>bc.wallets[wi]\<close> denotes.\<close>

definition held :: "Blockchain \<Rightarrow> int \<Rightarrow> nat \<Rightarrow> real" where
  "held bc wi t =
     (case py_index (wallets bc) wi of
        None \<Rightarrow> 0
      | Some i \<Rightarrow> balance_of (wallets bc ! i) t)"

text \<open>The debit and the credit of a TRANSFER or SWAP are not rounded: the sender's
  balance minus the amount, and the recipient's balance (after the debit) plus the
  amount, are doubles.  \<open>txs_unrounded\<close> says so of every transaction of a list applied in
  order.\<close>

definition tx_unrounded :: "Blockchain \<Rightarrow> Transaction \<Rightarrow> bool" where
  "tx_unrounded bc tx =
     (let (from_idx, bc1) = find_or_create_wallet bc (from_address tx);
          (to_idx, bc2) = find_or_create_wallet bc1 (to_address tx);
          t = nat (token_index tx);
          b = held bc2 from_idx t
      in fsub b (amount tx) = b - amount tx
         \<and> (case balance_isub bc2 from_idx (token_index tx) (amount tx) of
              Inl e \<Rightarrow> True
            | Inr bc3 \<Rightarrow>
                fadd (held bc3 to_idx t) (amount tx) = held bc3 to_idx t + amount tx))"







text \<open>\<open>struct.pack("!d", 10.0)\<close>, and the SHA-256 digest of the 27 bytes
  \<open>b"alice\0bob\0" + struct.pack("!d", 10.0) + bytes(9)\<close>.\<close>

definition packed_10 :: bytes where
  "packed_10 = [64, 36, 0, 0, 0, 0, 0, 0]"

definition digest_a :: bytes where
  "digest_a = [212, 88, 36, 125, 30, 130, 211, 206, 236, 230, 131, 50, 198, 124, 23, 18,
               38, 115, 222, 235, 170, 242, 109, 239, 191, 52, 117, 148, 151, 193, 83, 102]"

text \<open>Vocabulary for the validator: the per-transaction field checks, the linkage and
  timestamp conditions between consecutive blocks, and the checks of
  \<open>validate_blockchain\<close> other than the duplicate detection.\<close>

definition tx_fields_ok :: "BlockchainState \<Rightarrow> V_Transaction \<Rightarrow> bool" where
  "tx_fields_ok state tx =
     (0 \<le> v_token_index tx \<and> v_token_index tx < int (length (v_token_types state))
      \<and> \<not> v_amount tx < 0
      \<and> is_address_valid (v_from_address tx) \<and> is_address_valid (v_to_address tx))"

fun chain_links_ok :: "V_Block list \<Rightarrow> bool" where
  "chain_links_ok (b1 # b2 # rest) =
     (v_index b2 = v_index b1 + 1 \<and> v_prev_hash b2 = v_hash b1
      \<and> \<not> v_timestamp b2 < v_timestamp b1 \<and> chain_links_ok (b2 # rest))"
| "chain_links_ok _ = True"

definition block_txs_ok :: "BlockchainState \<Rightarrow> V_Block \<Rightarrow> bool" where
  "block_txs_ok state blk =
     (length (v_txs blk) \<le> 256 \<and> list_all (tx_fields_ok state) (v_txs blk))"

definition earlier_checks_pass :: "BlockchainState \<Rightarrow> bool" where
  "earlier_checks_pass state =
     (check_token_symbols_unique state
      \<and> check_wallets state = None \<and> check_pools state = None \<and> check_stakes state = None
      \<and> v_blocks state \<noteq> [] \<and> v_prev_hash (hd (v_blocks state)) = zero_hash
      \<and> chain_links_ok (v_blocks state)
      \<and> list_all (block_txs_ok state) (v_blocks state))"

definition v_token :: V_TokenType where
  "v_token = \<lparr>v_name = ''ELTT'', v_symbol = ''ELTT'', v_decimals = 8, v_token_kind = TK_ELTT,
              v_energy_binding_factor = 3 / 4\<rparr>"

definition v_tx :: V_Transaction where
  "v_tx = \<lparr>v_from_address = ''alice'', v_to_address = ''bob'', v_amount = 10,
           v_token_index = 0, v_kind = K_TRANSFER, v_memo = ''''\<rparr>"

text \<open>A snapshot with one token type and one block (zero previous-hash, stored hash
  \<open>h\<close>) holding the transactions \<open>l\<close>.\<close>

definition v_snapshot :: "bytes \<Rightarrow> V_Transaction list \<Rightarrow> BlockchainState" where
  "v_snapshot h l =
     \<lparr>v_blocks = [\<lparr>v_index = 0, v_timestamp = 0, v_prev_hash = zero_hash, v_hash = h,
                    v_txs = l\<rparr>],
      v_wallets = [], v_token_types = [v_token], v_pools = [], v_stakes = []\<rparr>"

text \<open>No two transactions of a block have the same fingerprint hash.\<close>

definition no_replay :: "(fingerprint \<Rightarrow> int) \<Rightarrow> V_Block \<Rightarrow> bool" where
  "no_replay py_hash blk = distinct (map (\<lambda>tx. py_hash (tx_fingerprint tx)) (v_txs blk))"

text \<open>A snapshot of two linked blocks whose stored hashes, of one byte and of no byte,
  are not SHA-256 digests of anything.\<close>

definition v_snapshot2 :: BlockchainState where
  "v_snapshot2 =
     \<lparr>v_blocks = [\<lparr>v_index = 0, v_timestamp = 0, v_prev_hash = zero_hash, v_hash = [1],
                    v_txs = [v_tx]\<rparr>,
                  \<lparr>v_index = 1, v_timestamp = 5, v_prev_hash = [1], v_hash = [],
                    v_txs = []\<rparr>],
      v_wallets = [], v_token_types = [v_token], v_pools = [], v_stakes = []\<rparr>"

section \<open>Rounding to double precision\<close>

lemma round_half_even_of_int [simp]: "round_half_even (of_int k) = k"
  by (simp add: round_half_even_def)

lemma round_half_even_upper: "real_of_int (round_half_even r) \<le> r + 1 / 2"
  unfolding round_half_even_def Let_def by (auto; linarith)

lemma round_half_even_lower: "r - 1 / 2 \<le> real_of_int (round_half_even r)"
  unfolding round_half_even_def Let_def by (auto; linarith)

lemma round_half_even_nonneg: "0 \<le> r \<Longrightarrow> 0 \<le> round_half_even r"
  unfolding round_half_even_def Let_def by (auto; linarith)

text \<open>Rounding a quotient of integers, in integer arithmetic.\<close>

lemma round_half_even_divide:
  assumes "0 < b"
  shows "round_half_even (of_int a / of_int b) =
     (if 2 * (a mod b) < b then a div b
      else if b < 2 * (a mod b) then a div b + 1
      else if even (a div b) then a div b else a div b + 1)"
proof -
  have f: "\<lfloor>real_of_int a / real_of_int b\<rfloor> = a div b" by (simp add: floor_divide_of_int_eq)
  have "real_of_int a = real_of_int (a div b * b + a mod b)" by simp
  also have "\<dots> = real_of_int (a div b) * real_of_int b + real_of_int (a mod b)"
    by (simp only: of_int_add of_int_mult)
  finally have d: "real_of_int a / real_of_int b - real_of_int (a div b)
      = real_of_int (a mod b) / real_of_int b"
    using assms by (simp add: field_simps)
  have lt: "real_of_int (a mod b) / real_of_int b < 1 / 2 \<longleftrightarrow> 2 * (a mod b) < b"
  proof -
    have "real_of_int (a mod b) / real_of_int b < 1 / 2
        \<longleftrightarrow> real_of_int (2 * (a mod b)) < real_of_int b"
      using assms by (simp add: field_simps)
    then show ?thesis by (simp only: of_int_less_iff)
  qed
  have gt: "1 / 2 < real_of_int (a mod b) / real_of_int b \<longleftrightarrow> b < 2 * (a mod b)"
  proof -
    have "1 / 2 < real_of_int (a mod b) / real_of_int b
        \<longleftrightarrow> real_of_int b < real_of_int (2 * (a mod b))"
      using assms by (simp add: field_simps)
    then show ?thesis by (simp only: of_int_less_iff)
  qed
  show ?thesis unfolding round_half_even_def Let_def f d lt gt by simp
qed

lemma round_half_even_numeral_divide:
  "round_half_even (numeral a / numeral b) =
     (if 2 * (numeral a mod numeral b) < (numeral b :: int) then numeral a div numeral b
      else if (numeral b :: int) < 2 * (numeral a mod numeral b)
        then numeral a div numeral b + 1
      else if even (numeral a div numeral b :: int) then numeral a div numeral b
      else numeral a div numeral b + 1)"
  using round_half_even_divide[of "numeral b" "numeral a"] by simp

text \<open>\<open>float_exponent\<close> is the binary exponent.\<close>

lemma bitlen_unique:
  assumes "0 \<le> e" and "2 ^ nat e \<le> n" and "n < 2 ^ nat (e + 1)"
  shows "bitlen n = e + 1"
proof -
  have "bitlen n \<le> e + 1" using assms(1,3) by (simp add: bitlen_le_iff_power)
  moreover have "\<not> bitlen n \<le> e" using assms(1,2) by (simp add: bitlen_le_iff_power)
  ultimately show ?thesis by simp
qed

lemma float_exponent_unique:
  assumes "2 powi e \<le> \<bar>x\<bar>" and "\<bar>x\<bar> < 2 powi (e + 1)"
  shows "float_exponent x = e"
proof (cases "0 \<le> e")
  case True
  define n where "n = \<lfloor>\<bar>x\<bar>\<rfloor>"
  have p: "(2::real) powi e = 2 ^ nat e" "(2::real) powi (e + 1) = 2 ^ nat (e + 1)"
    using True by (simp_all add: power_int_def)
  have "(1::real) \<le> 2 ^ nat e" by simp
  with assms(1) p have x1: "1 \<le> \<bar>x\<bar>" by linarith
  have "real_of_int (2 ^ nat e) \<le> \<bar>x\<bar>" using assms(1) p by simp
  then have l: "2 ^ nat e \<le> n" unfolding n_def by (simp only: le_floor_iff)
  have "\<bar>x\<bar> < real_of_int (2 ^ nat (e + 1))" using assms(2) p by simp
  then have u: "n < 2 ^ nat (e + 1)" unfolding n_def by (simp only: floor_less_iff)
  from bitlen_unique[OF True l u] x1 show ?thesis by (simp add: float_exponent_def n_def)
next
  case False
  define d where "d = nat (- e - 1)"
  have e: "e = - int d - 1" using False by (simp add: d_def)
  have p: "(2::real) powi e = 1 / 2 ^ Suc d" "(2::real) powi (e + 1) = 1 / 2 ^ d"
    by (simp_all add: e power_int_def field_simps nat_add_distrib)
  have "(0::real) < 1 / 2 ^ Suc d" by simp
  with assms(1) p have x0: "0 < \<bar>x\<bar>" by linarith
  have "1 / 2 ^ d \<le> (1::real)" by simp
  with assms(2) p have x1: "\<not> 1 \<le> \<bar>x\<bar>" by linarith
  define y where "y = 1 / \<bar>x\<bar>"
  have yu: "y \<le> 2 ^ Suc d" using assms(1) x0 unfolding p y_def
    by (simp add: field_simps)
  have yl: "2 ^ d < y" using assms(2) x0 unfolding p y_def
    by (simp add: field_simps)
  define k where "k = \<lceil>y\<rceil> - 1"
  have "y \<le> real_of_int (2 ^ Suc d)" using yu by simp
  then have "\<lceil>y\<rceil> \<le> 2 ^ Suc d" by (simp only: ceiling_le_iff)
  then have ku: "k < 2 ^ nat (int d + 1)" by (simp add: k_def nat_add_distrib)
  have "real_of_int (2 ^ d) < y" using yl by simp
  then have "2 ^ d < \<lceil>y\<rceil>" by (simp only: less_ceiling_iff)
  then have kl: "2 ^ nat (int d) \<le> k" by (simp add: k_def)
  from bitlen_unique[OF _ kl ku] have "bitlen k = int d + 1" by simp
  with x1 show ?thesis by (simp add: float_exponent_def k_def y_def e)
qed

lemma float_exponent_bounds:
  assumes "x \<noteq> 0"
  shows "2 powi (float_exponent x) \<le> \<bar>x\<bar> \<and> \<bar>x\<bar> < 2 powi (float_exponent x + 1)"
proof (cases "1 \<le> \<bar>x\<bar>")
  case True
  define n where "n = \<lfloor>\<bar>x\<bar>\<rfloor>"
  have n: "0 < n" using True by (simp add: n_def)
  have b1: "1 \<le> bitlen n" using n by (simp add: bitlen_alt_def)
  have e: "float_exponent x = bitlen n - 1" using True by (simp add: float_exponent_def n_def)
  from bitlen_bounds[OF n] have b: "2 ^ nat (bitlen n - 1) \<le> n" "n + 1 \<le> 2 ^ nat (bitlen n)"
    by simp_all
  have "real_of_int (2 ^ nat (bitlen n - 1)) \<le> real_of_int n"
    using b(1) by (simp only: of_int_le_iff)
  then have "2 ^ nat (bitlen n - 1) \<le> real_of_int n" by simp
  moreover have "real_of_int n \<le> \<bar>x\<bar>" by (simp add: n_def)
  ultimately have l: "2 ^ nat (bitlen n - 1) \<le> \<bar>x\<bar>" by linarith
  have "real_of_int (n + 1) \<le> real_of_int (2 ^ nat (bitlen n))"
    using b(2) by (simp only: of_int_le_iff)
  then have "real_of_int n + 1 \<le> 2 ^ nat (bitlen n)" by simp
  moreover have "\<bar>x\<bar> < real_of_int n + 1" unfolding n_def by linarith
  ultimately have u: "\<bar>x\<bar> < 2 ^ nat (bitlen n)" by linarith
  from l u b1 show ?thesis by (simp add: e power_int_def)
next
  case False
  have x0: "0 < \<bar>x\<bar>" using assms by simp
  define y where "y = 1 / \<bar>x\<bar>"
  have y1: "1 < y" using False x0 by (simp add: y_def)
  define k where "k = \<lceil>y\<rceil> - 1"
  have "1 < \<lceil>y\<rceil>" using y1 by (simp add: less_ceiling_iff)
  then have k: "0 < k" by (simp add: k_def)
  have b1: "1 \<le> bitlen k" using k by (simp add: bitlen_alt_def)
  define d where "d = nat (bitlen k - 1)"
  have bd: "bitlen k = int d + 1" using b1 by (simp add: d_def)
  have e: "float_exponent x = - int d - 1"
    using False bd[unfolded k_def y_def] by (simp add: float_exponent_def)
  have n1: "nat (bitlen k - 1) = d" by (simp add: d_def)
  have n2: "nat (bitlen k) = Suc d" unfolding bd by (simp add: nat_add_distrib)
  from bitlen_bounds[OF k] have b: "2 ^ d \<le> k" "k + 1 \<le> 2 ^ Suc d"
    unfolding n1 n2 by simp_all
  have "real_of_int (k + 1) \<le> real_of_int (2 ^ Suc d)"
    using b(2) by (simp only: of_int_le_iff)
  then have "real_of_int k + 1 \<le> 2 ^ Suc d" by simp
  moreover have "y \<le> real_of_int k + 1" unfolding k_def by simp
  ultimately have yu: "y \<le> 2 ^ Suc d" by linarith
  have "real_of_int (2 ^ d) \<le> real_of_int k" using b(1) by (simp only: of_int_le_iff)
  then have "2 ^ d \<le> real_of_int k" by simp
  moreover have "real_of_int k < y" unfolding k_def by linarith
  ultimately have yl: "2 ^ d < y" by linarith
  have l: "1 / 2 ^ Suc d \<le> \<bar>x\<bar>" using yu x0 by (simp add: y_def field_simps)
  have u: "\<bar>x\<bar> < 1 / 2 ^ d" using yl x0 by (simp add: y_def field_simps)
  have p: "(2::real) powi (- int d - 1) = 1 / 2 ^ Suc d"
    "(2::real) powi (- int d - 1 + 1) = 1 / 2 ^ d"
    by (simp_all add: power_int_def field_simps nat_add_distrib)
  from l u show ?thesis unfolding e p by simp
qed

lemma round_double_0 [simp]: "round_double 0 = 0"
  by (simp add: round_double_def)

lemma round_double_eq:
  assumes "2 powi e \<le> \<bar>x\<bar>" and "\<bar>x\<bar> < 2 powi (e + 1)" and "- 1022 \<le> e"
  shows "round_double x = of_int (round_half_even (x / 2 powi (e - 52))) * 2 powi (e - 52)"
proof -
  have "0 < (2::real) powi e" by simp
  with assms(1) have "0 < \<bar>x\<bar>" by linarith
  then have "x \<noteq> 0" by simp
  with float_exponent_unique[OF assms(1,2)] assms(3) show ?thesis
    by (simp add: round_double_def Let_def max_def)
qed

text \<open>An integer of at most 53 bits is a double.\<close>

lemma round_double_of_int:
  assumes "\<bar>n\<bar> < 2 ^ 53"
  shows "round_double (of_int n) = of_int n"
proof (cases "n = 0")
  case True
  then show ?thesis by simp
next
  case False
  define e where "e = bitlen \<bar>n\<bar> - 1"
  have n: "0 < \<bar>n\<bar>" using False by simp
  have e0: "0 \<le> e" using n unfolding e_def by (simp add: bitlen_alt_def)
  have "bitlen \<bar>n\<bar> \<le> 53" using assms by (simp add: bitlen_le_iff_power)
  then have e52: "e \<le> 52" by (simp add: e_def)
  from bitlen_bounds[OF n] have b: "2 ^ nat e \<le> \<bar>n\<bar>" "\<bar>n\<bar> < 2 ^ nat (e + 1)"
    using e0 by (simp_all add: e_def)
  have l: "2 powi e \<le> \<bar>real_of_int n\<bar>"
  proof -
    have "real_of_int (2 ^ nat e) \<le> real_of_int \<bar>n\<bar>" using b(1) by (simp only: of_int_le_iff)
    then show ?thesis using e0 by (simp add: power_int_def)
  qed
  have u: "\<bar>real_of_int n\<bar> < 2 powi (e + 1)"
  proof -
    have "real_of_int \<bar>n\<bar> < real_of_int (2 ^ nat (e + 1))" using b(2) by (simp only: of_int_less_iff)
    then show ?thesis using e0 by (simp add: power_int_def)
  qed
  define d where "d = nat (52 - e)"
  have q: "(2::real) powi (e - 52) = 1 / 2 ^ d"
    using e52 by (cases "e = 52") (simp_all add: power_int_def d_def field_simps)
  have "real_of_int n / 2 powi (e - 52) = real_of_int (n * 2 ^ d)" by (simp add: q)
  then have "round_half_even (real_of_int n / 2 powi (e - 52)) = n * 2 ^ d"
    by (simp only: round_half_even_of_int)
  with round_double_eq[OF l u] e0 show ?thesis by (simp add: q)
qed

lemma round_double_numeral [simp]:
  "(numeral k :: int) < 2 ^ 53 \<Longrightarrow> round_double (numeral k) = numeral k"
  using round_double_of_int[of "numeral k"] by simp

lemma round_double_neg_numeral [simp]:
  "(numeral k :: int) < 2 ^ 53 \<Longrightarrow> round_double (- numeral k) = - numeral k"
  using round_double_of_int[of "- numeral k"] by simp

lemma round_double_1 [simp]: "round_double 1 = 1"
  using round_double_of_int[of 1] by simp

text \<open>Rounding a positive quotient of integers whose scaling by \<open>2 ^ k\<close> has 53 bits.\<close>

lemma round_double_divide:
  fixes a b :: int and k :: nat
  assumes "0 < b" and "2 ^ 52 * b \<le> a * 2 ^ k" and "a * 2 ^ k < 2 ^ 53 * b" and "k \<le> 1074"
  shows "round_double (of_int a / of_int b)
     = of_int (round_half_even (of_int (a * 2 ^ k) / of_int b)) / 2 ^ k"
proof -
  define x where "x = real_of_int a / real_of_int b"
  define e where "e = 52 - int k"
  have b: "0 < real_of_int b" using assms(1) by simp
  have "0 < a * 2 ^ k" using assms(1,2) by (smt (verit) mult_pos_pos zero_less_power)
  then have "0 < a" by (simp add: zero_less_mult_iff)
  then have x0: "0 < x" using b by (simp add: x_def)
  have pe: "(2::real) powi e = 2 ^ 52 / 2 ^ k" "(2::real) powi (e + 1) = 2 ^ 53 / 2 ^ k"
    "(2::real) powi (e - 52) = 1 / 2 ^ k"
    by (simp_all add: e_def power_int_diff power_int_minus field_simps)
  have "real_of_int (2 ^ 52 * b) \<le> real_of_int (a * 2 ^ k)" using assms(2) by (simp only: of_int_le_iff)
  then have l: "2 powi e \<le> \<bar>x\<bar>" using b x0 unfolding pe x_def by (simp add: field_simps)
  have "real_of_int (a * 2 ^ k) < real_of_int (2 ^ 53 * b)" using assms(3) by (simp only: of_int_less_iff)
  then have u: "\<bar>x\<bar> < 2 powi (e + 1)" using b x0 unfolding pe x_def by (simp add: field_simps)
  have "- 1022 \<le> e" using assms(4) by (simp add: e_def)
  from round_double_eq[OF l u this] show ?thesis unfolding pe x_def by simp
qed

lemma round_double_numeral_divide:
  "2 ^ 52 * numeral b \<le> (numeral a :: int) * 2 ^ k \<Longrightarrow>
   (numeral a :: int) * 2 ^ k < 2 ^ 53 * numeral b \<Longrightarrow> k \<le> 1074 \<Longrightarrow>
   round_double (numeral a / numeral b)
     = of_int (round_half_even (of_int (numeral a * 2 ^ k) / numeral b)) / 2 ^ k"
  using round_double_divide[of "numeral b" "numeral a" k] by simp

text \<open>Below 1 a rounding error is at most \<open>2 ^ -54\<close>.\<close>

lemma round_double_unit:
  assumes "0 < x" and "x < 1"
  shows "0 \<le> round_double x \<and> round_double x \<le> x + 1 / 2 ^ 54"
proof -
  define e where "e = max (float_exponent x) (- 1022)"
  define q :: real where "q = 2 powi (e - 52)"
  have q0: "0 < q" by (simp add: q_def)
  have "1 < 1 / x" using assms by simp
  then have "1 < \<lceil>1 / x\<rceil>" by (simp add: less_ceiling_iff)
  then have "0 < bitlen (\<lceil>1 / x\<rceil> - 1)" by (simp add: bitlen_alt_def)
  then have "float_exponent x \<le> - 1" using assms by (simp add: float_exponent_def)
  then have e: "e \<le> - 1" by (simp add: e_def)
  have "q \<le> 2 powi (- 53)" unfolding q_def using e by (intro power_int_increasing) simp_all
  then have q53: "q \<le> 1 / 2 ^ 53" by (simp add: power_int_def field_simps)
  have r: "round_double x = of_int (round_half_even (x / q)) * q"
    using assms by (simp add: round_double_def Let_def e_def q_def)
  have "0 \<le> x / q" using assms q0 by simp
  from round_half_even_nonneg[OF this] q0 have lo: "0 \<le> round_double x" by (simp add: r)
  have "of_int (round_half_even (x / q)) * q \<le> (x / q + 1 / 2) * q"
    using round_half_even_upper[of "x / q"] q0 by (simp only: mult_le_cancel_right_pos)
  also have "\<dots> = x + q / 2" using q0 by (simp add: field_simps)
  also have "\<dots> \<le> x + 1 / 2 ^ 54" using q53 by simp
  finally show ?thesis using lo by (simp add: r)
qed

text \<open>The result of rounding has a significand of 53 bits.\<close>

lemma round_double_scaled:
  assumes "2 powi e \<le> x" and "x < 2 powi (e + 1)" and "- 1022 \<le> e"
  shows "\<exists>m. round_double x = of_int m * 2 powi (e - 52) \<and> 2 ^ 52 \<le> m \<and> m \<le> 2 ^ 53"
proof -
  define q :: real where "q = 2 powi (e - 52)"
  define m where "m = round_half_even (x / q)"
  have q0: "0 < q" by (simp add: q_def)
  have "0 < (2::real) powi e" by simp
  with assms(1) have x0: "0 < x" by linarith
  have qe: "(2::real) powi e = 2 ^ 52 * q" "(2::real) powi (e + 1) = 2 ^ 53 * q"
    by (simp_all add: q_def power_int_diff power_int_add)
  have l: "2 ^ 52 \<le> x / q" using assms(1) q0 unfolding qe by (simp add: field_simps)
  have u: "x / q < 2 ^ 53" using assms(2) q0 unfolding qe by (simp add: field_simps)
  have "real_of_int (2 ^ 52 - 1) < real_of_int m"
    using round_half_even_lower[of "x / q"] l unfolding m_def by simp
  then have "2 ^ 52 - 1 < m" by (simp only: of_int_less_iff)
  then have ml: "2 ^ 52 \<le> m" by simp
  have "real_of_int m < real_of_int (2 ^ 53 + 1)"
    using round_half_even_upper[of "x / q"] u unfolding m_def by simp
  then have "m < 2 ^ 53 + 1" by (simp only: of_int_less_iff)
  then have mu: "m \<le> 2 ^ 53" by simp
  have "round_double x = of_int m * q"
    using round_double_eq[of e x] assms x0 by (simp add: q_def m_def)
  with ml mu show ?thesis unfolding q_def by blast
qed

lemma round_double_representable:
  assumes "2 ^ 52 \<le> m" and "m \<le> 2 ^ 53" and "- 1022 \<le> e"
  shows "round_double (of_int m * 2 powi (e - 52)) = of_int m * 2 powi (e - 52)"
proof -
  define q :: real where "q = 2 powi (e - 52)"
  define x where "x = real_of_int m * q"
  have q0: "0 < q" by (simp add: q_def)
  have qe: "(2::real) powi e = 2 ^ 52 * q" "(2::real) powi (e + 1) = 2 ^ 53 * q"
    "(2::real) powi (e + 1 + 1) = 2 ^ 54 * q" "(2::real) powi (e + 1 - 52) = 2 * q"
    by (simp_all add: q_def power_int_diff power_int_add)
  have m0: "0 < real_of_int m" using assms(1) by simp
  have x0: "\<bar>x\<bar> = x" using m0 q0 by (simp add: x_def)
  show ?thesis
  proof (cases "m = 2 ^ 53")
    case True
    have l: "2 powi (e + 1) \<le> \<bar>x\<bar>" unfolding x0 qe by (simp add: x_def True)
    have u: "\<bar>x\<bar> < 2 powi (e + 1 + 1)" unfolding x0 qe using q0 by (simp add: x_def True)
    have "x / (2 * q) = real_of_int (2 ^ 52)" using q0 by (simp add: x_def True)
    then have "round_half_even (x / (2 * q)) = 2 ^ 52" by (simp only: round_half_even_of_int)
    with round_double_eq[OF l u] assms(3) have "round_double x = x"
      unfolding qe by (simp add: x_def True)
    then show ?thesis by (simp add: x_def q_def)
  next
    case False
    then have m53: "m < 2 ^ 53" using assms(2) by simp
    have "real_of_int (2 ^ 52) \<le> real_of_int m" using assms(1) by (simp only: of_int_le_iff)
    then have l: "2 powi e \<le> \<bar>x\<bar>" unfolding x0 qe using q0 by (simp add: x_def)
    have "real_of_int m < real_of_int (2 ^ 53)" using m53 by (simp only: of_int_less_iff)
    then have u: "\<bar>x\<bar> < 2 powi (e + 1)" unfolding x0 qe using q0 by (simp add: x_def)
    have "x / q = real_of_int m" using q0 by (simp add: x_def)
    then have "round_half_even (x / q) = m" by (simp only: round_half_even_of_int)
    with round_double_eq[OF l u assms(3)] have "round_double x = x"
      by (simp add: x_def q_def)
    then show ?thesis by (simp add: x_def q_def)
  qed
qed

text \<open>From 1 on, rounding commutes with doubling, and the double of a double is a
  double.\<close>

lemma round_double_twice:
  assumes "1 \<le> x"
  shows "round_double (2 * x) = 2 * round_double x
     \<and> round_double (2 * round_double x) = 2 * round_double x"
proof -
  define e where "e = float_exponent x"
  have x0: "x \<noteq> 0" "\<bar>x\<bar> = x" using assms by simp_all
  from float_exponent_bounds[OF x0(1)]
  have b: "2 powi e \<le> x" "x < 2 powi (e + 1)" by (simp_all add: e_def x0)
  have "(1::real) < 2 powi (e + 1)" using assms b(2) by linarith
  have "\<not> e + 1 \<le> 0"
  proof
    assume "e + 1 \<le> 0"
    then have "(2::real) powi (e + 1) \<le> 2 powi 0" by (intro power_int_increasing) simp_all
    with \<open>1 < 2 powi (e + 1)\<close> show False by simp
  qed
  then have e0: "0 \<le> e" by simp
  then have e1: "- 1022 \<le> e" "- 1022 \<le> e + 1" by simp_all
  have p: "(2::real) powi (e + 1) = 2 * 2 powi e" "(2::real) powi (e + 1 + 1) = 2 * 2 powi (e + 1)"
    "(2::real) powi (e + 1 - 52) = 2 * 2 powi (e - 52)"
    by (simp_all add: power_int_add power_int_diff)
  have l2: "2 powi (e + 1) \<le> \<bar>2 * x\<bar>" unfolding p(1) using b(1) assms by simp
  have u2: "\<bar>2 * x\<bar> < 2 powi (e + 1 + 1)"
    unfolding p(2) p(1) using b(2)[unfolded p(1)] assms by simp
  have r: "round_double x = of_int (round_half_even (x / 2 powi (e - 52))) * 2 powi (e - 52)"
    using round_double_eq[of e x] b e1 by (simp add: x0)
  have "round_double (2 * x)
      = of_int (round_half_even (2 * x / 2 powi (e + 1 - 52))) * 2 powi (e + 1 - 52)"
    by (rule round_double_eq[OF l2 u2 e1(2)])
  then have t: "round_double (2 * x) = 2 * round_double x"
    unfolding r p by simp
  from round_double_scaled[OF b e1(1)] obtain m
    where m: "round_double x = of_int m * 2 powi (e - 52)" "2 ^ 52 \<le> m" "m \<le> 2 ^ 53"
    by blast
  have "round_double (of_int m * 2 powi (e + 1 - 52)) = of_int m * 2 powi (e + 1 - 52)"
    by (rule round_double_representable[OF m(2,3) e1(2)])
  then have "round_double (2 * round_double x) = 2 * round_double x"
    unfolding m(1) p by (simp add: mult.left_commute)
  with t show ?thesis by simp
qed

lemma float_of_int_double:
  "1 \<le> n \<Longrightarrow> fadd (float_of_int n) (float_of_int n) = float_of_int (2 * n)"
  using round_double_twice[of "real_of_int n"] by (simp add: fadd_def float_of_int_def)

section \<open>Serialization, hashing and energy\<close>

lemmas kind_defs = TRANSFER_def MINT_def BURN_def CREATE_TOKEN_def CREATE_POOL_def
  ADD_LIQUIDITY_def REMOVE_LIQUIDITY_def STAKE_def UNSTAKE_def CLAIM_REWARDS_def SWAP_def
  PROFILE_UPDATE_def GOVERNANCE_PROPOSAL_def

lemma py_eq_iff [simp]: "py a = py b \<longleftrightarrow> a = b"
  by (simp add: py_def inj_map_eq_map[OF inj_of_char])

lemma length_py [simp]: "length (py s) = length s"
  by (simp add: py_def)

lemma take_py: "take n (py s) = py (take n s)"
  by (simp add: py_def take_map)

lemma be_bytes_length: "length (be_bytes w n) = w"
  by (simp add: be_bytes_def)

lemma serialize_block_header_cong:
  "index b1 = index b2 \<Longrightarrow> timestamp b1 = timestamp b2 \<Longrightarrow> prev_hash b1 = prev_hash b2
   \<Longrightarrow> length (txs b1) = length (txs b2)
   \<Longrightarrow> serialize_block_header b1 = serialize_block_header b2"
  unfolding serialize_block_header_def by (simp cong: sum.case_cong)

lemma serialize_block_header_fits:
  "0 \<le> index b \<Longrightarrow> index b < 2 ^ 32 \<Longrightarrow> 0 \<le> timestamp b \<Longrightarrow> timestamp b < 2 ^ 64
   \<Longrightarrow> int (length (txs b)) < 2 ^ 64
   \<Longrightarrow> serialize_block_header b =
       Inr (be_bytes 4 (index b) @ be_bytes 8 (timestamp b) @ prev_hash b
            @ be_bytes 8 (int (length (txs b))))"
  unfolding serialize_block_header_def pack_I_def pack_Q_def by simp

text \<open>
  Claim C7.  The block hash depends only on index, timestamp, previous-hash and the number
  of transactions: two blocks that agree on these four values have the same result of
  \<open>compute_block_hash\<close>, whatever their transaction lists contain; when the fields fit the
  packed header and the digest function yields 32 bytes, that result is one 32-byte digest.
\<close>

theorem compute_block_hash_header_only:
  assumes "index b1 = index b2" and "timestamp b1 = timestamp b2"
    and "prev_hash b1 = prev_hash b2" and "length (txs b1) = length (txs b2)"
  shows "compute_block_hash sha256 b1 = compute_block_hash sha256 b2
     \<and> (0 \<le> index b1 \<and> index b1 < 2 ^ 32 \<and> 0 \<le> timestamp b1 \<and> timestamp b1 < 2 ^ 64
          \<and> int (length (txs b1)) < 2 ^ 64 \<and> (\<forall>m. length (sha256 m) = 32)
        \<longrightarrow> (\<exists>d. compute_block_hash sha256 b1 = Inr d \<and> compute_block_hash sha256 b2 = Inr d
                 \<and> length d = 32))"
proof -
  have hdr: "serialize_block_header b1 = serialize_block_header b2"
    using assms by (rule serialize_block_header_cong)
  then have eq: "compute_block_hash sha256 b1 = compute_block_hash sha256 b2"
    unfolding compute_block_hash_def by simp
  have "\<exists>d. compute_block_hash sha256 b1 = Inr d \<and> length d = 32"
    if "0 \<le> index b1" "index b1 < 2 ^ 32" "0 \<le> timestamp b1" "timestamp b1 < 2 ^ 64"
      "int (length (txs b1)) < 2 ^ 64" "\<forall>m. length (sha256 m) = 32"
    unfolding compute_block_hash_def using that
    by (simp add: serialize_block_header_fits)
  with eq show ?thesis by metis
qed

theorem compute_block_hash_header_only_witness:
  "(\<forall>m. length (test_digest m) = 32)
   \<and> compute_block_hash test_digest
        \<lparr>index = 1, timestamp = 7, prev_hash = zero_hash, hash = [], txs = [tx_a]\<rparr>
     = compute_block_hash test_digest
        \<lparr>index = 1, timestamp = 7, prev_hash = zero_hash, hash = [1], txs = [tx_b]\<rparr>
   \<and> (\<exists>d. compute_block_hash test_digest
             \<lparr>index = 1, timestamp = 7, prev_hash = zero_hash, hash = [], txs = [tx_a]\<rparr> = Inr d
          \<and> length d = 32)
   \<and> tx_a \<noteq> tx_b"
proof -
  have len: "\<forall>m. length (test_digest m) = 32"
    by (simp add: test_digest_def)
  have ne: "tx_a \<noteq> tx_b"
    by (simp add: tx_a_def tx_b_def)
  from len ne show ?thesis
    using compute_block_hash_header_only
      [of "\<lparr>index = 1, timestamp = 7, prev_hash = zero_hash, hash = [], txs = [tx_a]\<rparr>"
          "\<lparr>index = 1, timestamp = 7, prev_hash = zero_hash, hash = [1], txs = [tx_b]\<rparr>"
          test_digest]
    by auto
qed

lemma kind_table_lookup:
  "k \<in> set [TRANSFER, MINT, BURN, CREATE_TOKEN, CREATE_POOL, ADD_LIQUIDITY, REMOVE_LIQUIDITY,
             STAKE, UNSTAKE, CLAIM_REWARDS, SWAP, PROFILE_UPDATE, GOVERNANCE_PROPOSAL]
   \<Longrightarrow> \<exists>n. map_of kind_table k = Some n \<and> 0 \<le> n \<and> n \<le> 12"
  by (auto simp: kind_table_def kind_defs)

lemma serialize_transaction_ok:
  assumes "kind tx \<in> set [TRANSFER, MINT, BURN, CREATE_TOKEN, CREATE_POOL, ADD_LIQUIDITY,
             REMOVE_LIQUIDITY, STAKE, UNSTAKE, CLAIM_REWARDS, SWAP, PROFILE_UPDATE,
             GOVERNANCE_PROPOSAL]"
    and "utf8 (from_address tx) = Inr fb" and "utf8 (to_address tx) = Inr tb"
    and "utf8 (memo tx) = Inr mb"
    and "- (2 ^ 31) \<le> token_index tx" and "token_index tx < 2 ^ 31"
  shows "\<exists>n. map_of kind_table (kind tx) = Some n \<and> 0 \<le> n \<and> n \<le> 12 \<and>
     serialize_transaction pack_d tx =
       Inr (fb @ [0] @ tb @ [0] @ pack_d (amount tx)
            @ be_bytes 4 (token_index tx) @ be_bytes 4 n @ mb @ [0])"
proof -
  from kind_table_lookup[OF assms(1)] obtain n
    where n: "map_of kind_table (kind tx) = Some n" "0 \<le> n" "n \<le> 12" by blast
  have "pack_i n = Inr (be_bytes 4 n)" using n by (simp add: pack_i_def)
  moreover have "pack_i (token_index tx) = Inr (be_bytes 4 (token_index tx))"
    using assms(5,6) by (simp add: pack_i_def)
  ultimately show ?thesis using n assms(2,3,4)
    by (simp add: serialize_transaction_def)
qed

lemma serialize_transaction_unencodable:
  assumes "utf8 (from_address tx) = Inl e \<or> utf8 (to_address tx) = Inl e
     \<or> utf8 (memo tx) = Inl e"
  shows "\<exists>e'. serialize_transaction pack_d tx = Inl e'"
  using assms by (auto simp: serialize_transaction_def split: sum.splits)

lemma frac_bounds:
  "fdiv (float_of_int (n mod 1000000000)) 1000000000
     = round_double (real_of_int (n mod 1000000000) / 1000000000)
   \<and> 0 \<le> fdiv (float_of_int (n mod 1000000000)) 1000000000
   \<and> fdiv (float_of_int (n mod 1000000000)) 1000000000 < 1"
proof -
  define m where "m = n mod 1000000000"
  have m: "0 \<le> m" "m < 1000000000" by (simp_all add: m_def)
  then have "\<bar>m\<bar> < 2 ^ 53" by simp
  then have f: "float_of_int m = real_of_int m"
    unfolding float_of_int_def by (rule round_double_of_int)
  have e: "fdiv (float_of_int m) 1000000000 = round_double (real_of_int m / 1000000000)"
    by (simp add: fdiv_def f)
  have "0 \<le> round_double (real_of_int m / 1000000000)
      \<and> round_double (real_of_int m / 1000000000) < 1"
  proof (cases "m = 0")
    case True
    then show ?thesis by simp
  next
    case False
    with m have "1 \<le> m" "m \<le> 999999999" by simp_all
    then have "1 \<le> real_of_int m" "real_of_int m \<le> 999999999" by simp_all
    then have x: "0 < real_of_int m / 1000000000" "real_of_int m / 1000000000 \<le> 999999999 / 1000000000"
      by simp_all
    then have "real_of_int m / 1000000000 < 1" by simp
    from round_double_unit[OF x(1) this] x(2) show ?thesis by simp
  qed
  with e show ?thesis unfolding m_def by simp
qed

lemma energy_of_serialized:
  assumes "serialize_transaction pack_d tx = Inr data"
  shows "compute_tx_energy sha256 pack_d tx =
     Inr (fadd (float_of_int (2 * int (length data)))
            (fdiv (float_of_int (int_from_bytes (take 8 (drop 24 (sha256 data))) mod 1000000000))
               1000000000))"
proof (cases "data = []")
  case True
  then show ?thesis
    using assms by (simp add: compute_tx_energy_def si_byte_value_from_size_def
        binary_byte_value_from_size_def Let_def fadd_def float_of_int_def)
next
  case False
  then have l: "1 \<le> int (length data)" by (cases data) simp_all
  from False have "\<not> int (length data) \<le> 0" by simp
  with assms float_of_int_double[OF l] show ?thesis
    by (simp add: compute_tx_energy_def si_byte_value_from_size_def
        binary_byte_value_from_size_def Let_def)
qed

lemma int_from_bytes_snoc: "int_from_bytes (bs @ [b]) = int_from_bytes bs * 256 + uint b"
  by (simp add: int_from_bytes_def)

lemma int_from_bytes_bounds: "0 \<le> int_from_bytes bs \<and> int_from_bytes bs < 256 ^ length bs"
proof (induction bs rule: rev_induct)
  case Nil
  show ?case by (simp add: int_from_bytes_def)
next
  case (snoc b bs)
  have b: "0 \<le> uint b" "uint b < 256"
    using uint_bounded[of b] by simp_all
  from snoc have "int_from_bytes bs + 1 \<le> 256 ^ length bs" by simp
  then have "(int_from_bytes bs + 1) * 256 \<le> 256 ^ length bs * 256"
    by (rule mult_right_mono) simp
  with snoc b show ?case
    by (simp add: int_from_bytes_snoc algebra_simps)
qed

lemma int_from_bytes_zeros: "int_from_bytes (replicate n 0) = 0"
  by (induction n) (simp_all add: int_from_bytes_def)

lemma utf8_alice_bob:
  "utf8 (py ''alice'') = Inr [97, 108, 105, 99, 101]" "utf8 (py ''bob'') = Inr [98, 111, 98]"
  "utf8 (py '''') = Inr []"
  by (simp_all add: py_def utf8_char_def)

lemma be_bytes_4_0: "be_bytes 4 0 = [0, 0, 0, 0]"
  by (simp add: be_bytes_def map_replicate_const eval_nat_numeral)

lemma serialize_tx_a:
  "serialize_transaction pack_d tx_a =
     Inr ([97, 108, 105, 99, 101, 0, 98, 111, 98, 0] @ pack_d 10 @ [0, 0, 0, 0, 0, 0, 0, 0, 0])"
  by (simp add: serialize_transaction_def tx_a_def utf8_alice_bob pack_i_def kind_table_def
      kind_defs be_bytes_4_0)

lemma last8_digest_a: "int_from_bytes (take 8 (drop 24 digest_a)) mod 1000000000 = 94828902"
  by (simp add: digest_a_def int_from_bytes_def)

lemma frac_digest_a: "fdiv (float_of_int 94828902) 1000000000 = 6833142523378453 / 2 ^ 56"
proof -
  have "float_of_int 94828902 = 94828902" by (simp add: float_of_int_def)
  moreover have "round_double (94828902 / 1000000000) = 6833142523378453 / 2 ^ 56"
    by (simp add: round_double_numeral_divide[where k = 56] round_half_even_numeral_divide)
  ultimately show ?thesis by (simp add: fdiv_def)
qed

lemma energy_digest_a: "fadd 54 (6833142523378453 / 2 ^ 56) = 7613170352678686 / 2 ^ 47"
proof -
  have e: "(54 + 6833142523378453 / 2 ^ 56 :: real) = 3897943220571486997 / 2 ^ 56"
    by simp
  have r: "round_double (3897943220571486997 / 2 ^ 56) = 7613170352678686 / 2 ^ 47"
    using round_double_divide[of "2 ^ 56" 3897943220571486997 47]
    by (simp add: round_half_even_numeral_divide)
  show ?thesis unfolding fadd_def e by (rule r)
qed

text \<open>
  Claim C4, as stated, fails.  A transaction of kind TRANSFER whose token index is
  \<open>2 ^ 31\<close> has no serialization (\<open>struct.pack("!i", ...)\<close> raises struct.error), and one
  whose memo is a lone surrogate has none either (UnicodeEncodeError): for both
  \<open>compute_tx_energy\<close> raises instead of returning an energy.  And for the transaction
  from "alice" to "bob" of the claim, whose serialization has the digest \<open>digest_a\<close>, the
  energy returned is the double \<open>7613170352678686 / 2 ^ 47\<close> (54.094828902), which is
  neither \<open>54 + 94828902 / 1000000000\<close> nor 54 plus the double nearest to that quotient:
  the division and the addition are rounded.
\<close>

theorem compute_tx_energy_formula_counterexample:
  "\<forall>sha256 pack_d.
     kind (tx_a\<lparr>token_index := 2 ^ 31\<rparr>) = TRANSFER
     \<and> compute_tx_energy sha256 pack_d (tx_a\<lparr>token_index := 2 ^ 31\<rparr>) = Inl StructError
     \<and> kind (tx_a\<lparr>memo := [55357]\<rparr>) = TRANSFER
     \<and> compute_tx_energy sha256 pack_d (tx_a\<lparr>memo := [55357]\<rparr>) = Inl UnicodeEncodeError
     \<and> serialize_transaction (\<lambda>x. packed_10) tx_a
         = Inr ([97, 108, 105, 99, 101, 0, 98, 111, 98, 0] @ packed_10
                @ [0, 0, 0, 0, 0, 0, 0, 0, 0])
     \<and> int_from_bytes (take 8 (drop 24 digest_a)) mod 1000000000 = 94828902
     \<and> compute_tx_energy (\<lambda>m. digest_a) (\<lambda>x. packed_10) tx_a
         = Inr (7613170352678686 / 2 ^ 47)
     \<and> (7613170352678686 / 2 ^ 47 :: real) \<noteq> 54 + 94828902 / 1000000000
     \<and> fdiv 94828902 1000000000 = 6833142523378453 / 2 ^ 56
     \<and> (6833142523378453 / 2 ^ 56 :: real) \<noteq> 94828902 / 1000000000
     \<and> (7613170352678686 / 2 ^ 47 :: real) \<noteq> 54 + 6833142523378453 / 2 ^ 56"
proof (intro allI conjI)
  fix sha256 :: "bytes \<Rightarrow> bytes" and pack_d :: "real \<Rightarrow> bytes"
  show "kind (tx_a\<lparr>token_index := 2 ^ 31\<rparr>) = TRANSFER" by (simp add: tx_a_def)
  show "compute_tx_energy sha256 pack_d (tx_a\<lparr>token_index := 2 ^ 31\<rparr>) = Inl StructError"
    by (simp add: compute_tx_energy_def serialize_transaction_def tx_a_def utf8_alice_bob
        pack_i_def)
  show "kind (tx_a\<lparr>memo := [55357]\<rparr>) = TRANSFER" by (simp add: tx_a_def)
  show "compute_tx_energy sha256 pack_d (tx_a\<lparr>memo := [55357]\<rparr>) = Inl UnicodeEncodeError"
    by (simp add: compute_tx_energy_def serialize_transaction_def tx_a_def utf8_alice_bob
        utf8_char_def)
  show "serialize_transaction (\<lambda>x. packed_10) tx_a
         = Inr ([97, 108, 105, 99, 101, 0, 98, 111, 98, 0] @ packed_10
                @ [0, 0, 0, 0, 0, 0, 0, 0, 0])"
    by (rule serialize_tx_a)
  show "int_from_bytes (take 8 (drop 24 digest_a)) mod 1000000000 = 94828902"
    by (rule last8_digest_a)
  have "compute_tx_energy (\<lambda>m. digest_a) (\<lambda>x. packed_10) tx_a
      = Inr (fadd (float_of_int 54) (fdiv (float_of_int 94828902) 1000000000))"
    using energy_of_serialized[OF serialize_tx_a, of "\<lambda>m. digest_a" "\<lambda>x. packed_10"]
    by (simp add: last8_digest_a packed_10_def)
  moreover have "float_of_int 54 = 54" by (simp add: float_of_int_def)
  ultimately show "compute_tx_energy (\<lambda>m. digest_a) (\<lambda>x. packed_10) tx_a
         = Inr (7613170352678686 / 2 ^ 47)"
    by (simp only: frac_digest_a energy_digest_a)
  show "(7613170352678686 / 2 ^ 47 :: real) \<noteq> 54 + 94828902 / 1000000000" by simp
  have "float_of_int 94828902 = 94828902" by (simp add: float_of_int_def)
  with frac_digest_a show "fdiv 94828902 1000000000 = 6833142523378453 / 2 ^ 56"
    by simp
  show "(6833142523378453 / 2 ^ 56 :: real) \<noteq> 94828902 / 1000000000" by simp
  show "(7613170352678686 / 2 ^ 47 :: real) \<noteq> 54 + 6833142523378453 / 2 ^ 56" by simp
qed

text \<open>
  Claim C4, amended.  For a transaction whose kind is one of the 13 enumerated kinds,
  whose strings can be encoded in UTF-8 and whose token index fits the signed 32-bit
  field, the serialization is the UTF-8 bytes of the sender and a zero byte, those of the
  recipient and a zero byte, the 8 bytes of the amount, the token index and the number of
  the kind as 4-byte big-endian integers, and the UTF-8 bytes of the memo and a zero
  byte.  With \<open>L\<close> its length, \<open>compute_tx_energy\<close> returns \<open>2 * L + frac\<close> computed in
  double arithmetic, where \<open>frac\<close> is bytes 24 to 31 of the digest of the serialization
  read as a big-endian unsigned integer (below \<open>2 ^ 64\<close>), reduced modulo 1,000,000,000
  and divided by 1,000,000,000.0 in double arithmetic, so \<open>0 \<le> frac < 1\<close>.  Transactions
  with identical fields have identical energy.  For from "alice", to "bob", amount 10,
  token index 0, kind TRANSFER and empty memo the serialization is
  \<open>b"alice\0bob\0"\<close>, the 8 bytes of the amount and 9 zero bytes, 27 bytes in all, and the
  energy is \<open>54 + frac\<close> in double arithmetic.
\<close>

theorem compute_tx_energy_formula:
  "(kind tx \<in> set [TRANSFER, MINT, BURN, CREATE_TOKEN, CREATE_POOL, ADD_LIQUIDITY,
                   REMOVE_LIQUIDITY, STAKE, UNSTAKE, CLAIM_REWARDS, SWAP, PROFILE_UPDATE,
                   GOVERNANCE_PROPOSAL]
      \<and> utf8 (from_address tx) = Inr fb \<and> utf8 (to_address tx) = Inr tb
      \<and> utf8 (memo tx) = Inr mb
      \<and> - (2 ^ 31) \<le> token_index tx \<and> token_index tx < 2 ^ 31
    \<longrightarrow> (\<exists>n data L last8 frac.
          map_of kind_table (kind tx) = Some n \<and> 0 \<le> n \<and> n \<le> 12
          \<and> data = fb @ [0] @ tb @ [0] @ pack_d (amount tx)
                   @ be_bytes 4 (token_index tx) @ be_bytes 4 n @ mb @ [0]
          \<and> serialize_transaction pack_d tx = Inr data
          \<and> L = int (length data)
          \<and> last8 = int_from_bytes (take 8 (drop 24 (sha256 data)))
          \<and> 0 \<le> last8 \<and> last8 < 2 ^ 64
          \<and> frac = fdiv (float_of_int (last8 mod 1000000000)) 1000000000
          \<and> frac = round_double (real_of_int (last8 mod 1000000000) / 1000000000)
          \<and> 0 \<le> frac \<and> frac < 1
          \<and> compute_tx_energy sha256 pack_d tx = Inr (fadd (float_of_int (2 * L)) frac)))
   \<and> (from_address tx' = from_address tx \<and> to_address tx' = to_address tx
        \<and> amount tx' = amount tx \<and> token_index tx' = token_index tx \<and> kind tx' = kind tx
        \<and> memo tx' = memo tx
      \<longrightarrow> compute_tx_energy sha256 pack_d tx' = compute_tx_energy sha256 pack_d tx)
   \<and> serialize_transaction pack_d tx_a
       = Inr ([97, 108, 105, 99, 101, 0, 98, 111, 98, 0] @ pack_d 10
              @ [0, 0, 0, 0, 0, 0, 0, 0, 0])
   \<and> (length (pack_d 10) = 8
      \<longrightarrow> length ([97, 108, 105, 99, 101, 0, 98, 111, 98, 0 :: byte] @ pack_d 10
                   @ [0, 0, 0, 0, 0, 0, 0, 0, 0]) = 27
          \<and> compute_tx_energy sha256 pack_d tx_a =
              Inr (fadd 54
                    (fdiv (float_of_int
                            (int_from_bytes (take 8 (drop 24
                               (sha256 ([97, 108, 105, 99, 101, 0, 98, 111, 98, 0] @ pack_d 10
                                        @ [0, 0, 0, 0, 0, 0, 0, 0, 0]))))
                             mod 1000000000))
                       1000000000)))"
proof (intro conjI impI)
  assume h: "kind tx \<in> set [TRANSFER, MINT, BURN, CREATE_TOKEN, CREATE_POOL, ADD_LIQUIDITY,
                   REMOVE_LIQUIDITY, STAKE, UNSTAKE, CLAIM_REWARDS, SWAP, PROFILE_UPDATE,
                   GOVERNANCE_PROPOSAL]
      \<and> utf8 (from_address tx) = Inr fb \<and> utf8 (to_address tx) = Inr tb
      \<and> utf8 (memo tx) = Inr mb
      \<and> - (2 ^ 31) \<le> token_index tx \<and> token_index tx < 2 ^ 31"
  define data_of where "data_of n = fb @ [0] @ tb @ [0] @ pack_d (amount tx)
                   @ be_bytes 4 (token_index tx) @ be_bytes 4 n @ mb @ [0]" for n
  from h serialize_transaction_ok[of tx fb tb mb pack_d] obtain n
    where n: "map_of kind_table (kind tx) = Some n" "0 \<le> n" "n \<le> 12"
      and d: "serialize_transaction pack_d tx = Inr (data_of n)"
    unfolding data_of_def by blast
  define last8 where "last8 = int_from_bytes (take 8 (drop 24 (sha256 (data_of n))))"
  define frac where "frac = fdiv (float_of_int (last8 mod 1000000000)) 1000000000"
  have "0 \<le> last8" "last8 < 256 ^ length (take 8 (drop 24 (sha256 (data_of n))))"
    unfolding last8_def using int_from_bytes_bounds by blast+
  moreover have "(256::int) ^ length (take 8 (drop 24 (sha256 (data_of n)))) \<le> 256 ^ 8"
    by (rule power_increasing) simp_all
  ultimately have l8: "0 \<le> last8" "last8 < 2 ^ 64" by simp_all
  have fr: "frac = round_double (real_of_int (last8 mod 1000000000) / 1000000000)"
    "0 \<le> frac" "frac < 1"
    unfolding frac_def using frac_bounds[of last8] by simp_all
  have "compute_tx_energy sha256 pack_d tx
      = Inr (fadd (float_of_int (2 * int (length (data_of n)))) frac)"
    unfolding frac_def last8_def by (rule energy_of_serialized[OF d])
  with n d l8 fr last8_def frac_def
  show "\<exists>n data L last8 frac.
          map_of kind_table (kind tx) = Some n \<and> 0 \<le> n \<and> n \<le> 12
          \<and> data = fb @ [0] @ tb @ [0] @ pack_d (amount tx)
                   @ be_bytes 4 (token_index tx) @ be_bytes 4 n @ mb @ [0]
          \<and> serialize_transaction pack_d tx = Inr data
          \<and> L = int (length data)
          \<and> last8 = int_from_bytes (take 8 (drop 24 (sha256 data)))
          \<and> 0 \<le> last8 \<and> last8 < 2 ^ 64
          \<and> frac = fdiv (float_of_int (last8 mod 1000000000)) 1000000000
          \<and> frac = round_double (real_of_int (last8 mod 1000000000) / 1000000000)
          \<and> 0 \<le> frac \<and> frac < 1
          \<and> compute_tx_energy sha256 pack_d tx = Inr (fadd (float_of_int (2 * L)) frac)"
    unfolding data_of_def by blast
next
  assume "from_address tx' = from_address tx \<and> to_address tx' = to_address tx
        \<and> amount tx' = amount tx \<and> token_index tx' = token_index tx \<and> kind tx' = kind tx
        \<and> memo tx' = memo tx"
  then have "tx' = tx" by simp
  then show "compute_tx_energy sha256 pack_d tx' = compute_tx_energy sha256 pack_d tx"
    by simp
next
  show "serialize_transaction pack_d tx_a
       = Inr ([97, 108, 105, 99, 101, 0, 98, 111, 98, 0] @ pack_d 10
              @ [0, 0, 0, 0, 0, 0, 0, 0, 0])"
    by (rule serialize_tx_a)
next
  assume "length (pack_d 10) = 8"
  then show "length ([97, 108, 105, 99, 101, 0, 98, 111, 98, 0 :: byte] @ pack_d 10
                   @ [0, 0, 0, 0, 0, 0, 0, 0, 0]) = 27"
    by simp
next
  assume l: "length (pack_d 10) = 8"
  have "float_of_int 54 = 54" by (simp add: float_of_int_def)
  with energy_of_serialized[OF serialize_tx_a, of sha256 pack_d] l
  show "compute_tx_energy sha256 pack_d tx_a =
              Inr (fadd 54
                    (fdiv (float_of_int
                            (int_from_bytes (take 8 (drop 24
                               (sha256 ([97, 108, 105, 99, 101, 0, 98, 111, 98, 0] @ pack_d 10
                                        @ [0, 0, 0, 0, 0, 0, 0, 0, 0]))))
                             mod 1000000000))
                       1000000000))"
    by simp
qed

theorem compute_tx_energy_formula_witness:
  "kind tx_a \<in> set [TRANSFER, MINT, BURN, CREATE_TOKEN, CREATE_POOL, ADD_LIQUIDITY,
                   REMOVE_LIQUIDITY, STAKE, UNSTAKE, CLAIM_REWARDS, SWAP, PROFILE_UPDATE,
                   GOVERNANCE_PROPOSAL]
   \<and> utf8 (from_address tx_a) = Inr [97, 108, 105, 99, 101]
   \<and> utf8 (to_address tx_a) = Inr [98, 111, 98]
   \<and> utf8 (memo tx_a) = Inr []
   \<and> - (2 ^ 31) \<le> token_index tx_a \<and> token_index tx_a < 2 ^ 31
   \<and> length (packed_10) = 8
   \<and> serialize_transaction (\<lambda>x. packed_10) tx_a
       = Inr [97, 108, 105, 99, 101, 0, 98, 111, 98, 0, 64, 36, 0, 0, 0, 0, 0, 0,
              0, 0, 0, 0, 0, 0, 0, 0, 0]
   \<and> int_from_bytes (take 8 (drop 24 digest_a)) = 13777766441094828902
   \<and> fdiv (float_of_int (13777766441094828902 mod 1000000000)) 1000000000
       = 6833142523378453 / 2 ^ 56
   \<and> compute_tx_energy (\<lambda>m. digest_a) (\<lambda>x. packed_10) tx_a
       = Inr (fadd 54 (6833142523378453 / 2 ^ 56))
   \<and> fadd 54 (6833142523378453 / 2 ^ 56) = 7613170352678686 / 2 ^ 47"
proof -
  have k: "kind tx_a \<in> set [TRANSFER, MINT, BURN, CREATE_TOKEN, CREATE_POOL, ADD_LIQUIDITY,
                   REMOVE_LIQUIDITY, STAKE, UNSTAKE, CLAIM_REWARDS, SWAP, PROFILE_UPDATE,
                   GOVERNANCE_PROPOSAL]"
    by (simp add: tx_a_def)
  have u: "utf8 (from_address tx_a) = Inr [97, 108, 105, 99, 101]"
    "utf8 (to_address tx_a) = Inr [98, 111, 98]" "utf8 (memo tx_a) = Inr []"
    by (simp_all add: tx_a_def utf8_alice_bob)
  have t: "- (2 ^ 31) \<le> token_index tx_a" "token_index tx_a < 2 ^ 31"
    by (simp_all add: tx_a_def)
  have l: "length ((\<lambda>x::real. packed_10) 10) = 8" by (simp add: packed_10_def)
  have l': "length packed_10 = 8" by (simp add: packed_10_def)
  have l8: "int_from_bytes (take 8 (drop 24 digest_a)) = 13777766441094828902"
    by (simp add: digest_a_def int_from_bytes_def)
  have m: "(13777766441094828902 :: int) mod 1000000000 = 94828902" by simp
  from compute_tx_energy_formula[of tx_a "[97, 108, 105, 99, 101]" "[98, 111, 98]" "[]"
      "\<lambda>x. packed_10" "\<lambda>m. digest_a" tx_a] l l8
  have s: "serialize_transaction (\<lambda>x. packed_10) tx_a
       = Inr ([97, 108, 105, 99, 101, 0, 98, 111, 98, 0] @ packed_10
              @ [0, 0, 0, 0, 0, 0, 0, 0, 0])"
    and e: "compute_tx_energy (\<lambda>m. digest_a) (\<lambda>x. packed_10) tx_a =
       Inr (fadd 54 (fdiv (float_of_int 94828902) 1000000000))"
    by simp_all
  have s': "serialize_transaction (\<lambda>x. packed_10) tx_a
       = Inr [97, 108, 105, 99, 101, 0, 98, 111, 98, 0, 64, 36, 0, 0, 0, 0, 0, 0,
              0, 0, 0, 0, 0, 0, 0, 0, 0]"
    using s by (simp add: packed_10_def)
  have f': "fdiv (float_of_int (13777766441094828902 mod 1000000000)) 1000000000
       = 6833142523378453 / 2 ^ 56"
    by (simp only: m frac_digest_a)
  have e': "compute_tx_energy (\<lambda>m. digest_a) (\<lambda>x. packed_10) tx_a
       = Inr (fadd 54 (6833142523378453 / 2 ^ 56))"
    using e by (simp only: frac_digest_a)
  show ?thesis
    by (intro conjI k u t l' s' l8 f' e' energy_digest_a)
qed

section \<open>Token and wallet registry\<close>

text \<open>
  Claim C5.  \<open>add_token_type\<close> returns \<open>-1\<close> and leaves the aggregate as it is when 64 token
  types exist; otherwise it appends the new type, with the name cut to 64 and the symbol
  to 16 characters, returns its index, appends a balance of 0 to every wallet and sets
  each wallet's token list and \<open>token_count\<close> to the new global list and its length, so
  that wallets whose balance vectors were as long as the token-type list are so
  afterwards.
\<close>

theorem add_token_type_sync:
  "(length (token_types bc) \<ge> 64 \<longrightarrow> add_token_type bc nm smb dec knd ebf = (- 1, bc))
   \<and> (length (token_types bc) < 64 \<longrightarrow>
        (\<exists>bc'. add_token_type bc nm smb dec knd ebf = (int (length (token_types bc)), bc')
           \<and> token_types bc' = token_types bc
                @ [\<lparr>name = take 64 nm, symbol = take 16 smb, decimals = dec, kind = knd,
                    energy_binding_factor = ebf\<rparr>]
           \<and> wallets bc' = map (\<lambda>w. \<lparr>address = address w,
                                       token_count = int (length (token_types bc)) + 1,
                                       tokens = token_types bc',
                                       balances = balances w @ [0]\<rparr>) (wallets bc)
           \<and> blocks bc' = blocks bc \<and> pools bc' = pools bc \<and> stakes bc' = stakes bc
           \<and> (aligned bc \<longrightarrow> aligned bc')))"
proof (intro conjI impI)
  assume "length (token_types bc) \<ge> 64"
  then show "add_token_type bc nm smb dec knd ebf = (- 1, bc)"
    by (simp add: add_token_type_def ELTT_MAX_TOKEN_TYPES_def)
next
  assume lt: "length (token_types bc) < 64"
  define t where "t = \<lparr>name = take 64 nm, symbol = take 16 smb, decimals = dec, kind = knd,
                    energy_binding_factor = ebf\<rparr>"
  define bc' where "bc' = bc\<lparr>token_types := token_types bc @ [t],
      wallets := map (\<lambda>w. w\<lparr>tokens := token_types bc @ [t], balances := balances w @ [0],
                              token_count := int (length (token_types bc @ [t]))\<rparr>) (wallets bc)\<rparr>"
  have r: "add_token_type bc nm smb dec knd ebf = (int (length (token_types bc)), bc')"
    using lt
    by (simp add: add_token_type_def ELTT_MAX_TOKEN_TYPES_def ELTT_MAX_TOKEN_NAME_LEN_def
        ELTT_MAX_TOKEN_SYMBOL_LEN_def Let_def t_def bc'_def)
  have tt: "token_types bc' = token_types bc @ [t]"
    by (simp add: bc'_def)
  have ws: "wallets bc' = map (\<lambda>w. \<lparr>address = address w,
                                       token_count = int (length (token_types bc)) + 1,
                                       tokens = token_types bc',
                                       balances = balances w @ [0]\<rparr>) (wallets bc)"
    by (simp add: bc'_def)
  have rest: "blocks bc' = blocks bc" "pools bc' = pools bc" "stakes bc' = stakes bc"
    by (simp_all add: bc'_def)
  have al: "aligned bc'" if "aligned bc"
    using that by (simp add: aligned_def ws tt list_all_iff)
  from r tt ws rest al
  show "\<exists>bc'. add_token_type bc nm smb dec knd ebf = (int (length (token_types bc)), bc')
           \<and> token_types bc' = token_types bc
                @ [\<lparr>name = take 64 nm, symbol = take 16 smb, decimals = dec, kind = knd,
                    energy_binding_factor = ebf\<rparr>]
           \<and> wallets bc' = map (\<lambda>w. \<lparr>address = address w,
                                       token_count = int (length (token_types bc)) + 1,
                                       tokens = token_types bc',
                                       balances = balances w @ [0]\<rparr>) (wallets bc)
           \<and> blocks bc' = blocks bc \<and> pools bc' = pools bc \<and> stakes bc' = stakes bc
           \<and> (aligned bc \<longrightarrow> aligned bc')"
    unfolding t_def by blast
qed

theorem add_token_type_sync_witness:
  "add_token_type (ex_chain\<lparr>token_types := replicate 64 ex_token\<rparr>) (py ''N'') (py ''S'') 8 (py ''GENERIC'') 0
     = (- 1, ex_chain\<lparr>token_types := replicate 64 ex_token\<rparr>)
   \<and> aligned ex_chain
   \<and> (\<exists>bc'. add_token_type ex_chain (py (replicate 70 CHR ''n'')) (py (replicate 20 CHR ''s'')) 8
               (py ''GENERIC'') 0 = (1, bc')
         \<and> map balances (wallets bc') = [[10, 0], [0, 0]]
         \<and> map name (token_types bc') = [py ''ELTT'', py (replicate 64 CHR ''n'')]
         \<and> map symbol (token_types bc') = [py ''ELTT'', py (replicate 16 CHR ''s'')]
         \<and> aligned bc')"
proof -
  have full: "add_token_type (ex_chain\<lparr>token_types := replicate 64 ex_token\<rparr>) (py ''N'') (py ''S'') 8
       (py ''GENERIC'') 0 = (- 1, ex_chain\<lparr>token_types := replicate 64 ex_token\<rparr>)"
    using add_token_type_sync
      [of "ex_chain\<lparr>token_types := replicate 64 ex_token\<rparr>" "py ''N''" "py ''S''" 8 "py ''GENERIC''" 0]
    by simp
  have al: "aligned ex_chain"
    by (simp add: aligned_def ex_chain_def)
  have lt: "length (token_types ex_chain) < 64"
    by (simp add: ex_chain_def)
  from add_token_type_sync
      [of ex_chain "py (replicate 70 CHR ''n'')" "py (replicate 20 CHR ''s'')" 8 "py ''GENERIC''" 0] lt al
  obtain bc' where b:
    "add_token_type ex_chain (py (replicate 70 CHR ''n'')) (py (replicate 20 CHR ''s'')) 8 (py ''GENERIC'') 0
       = (int (length (token_types ex_chain)), bc')"
    "token_types bc' = token_types ex_chain
       @ [\<lparr>name = take 64 (py (replicate 70 CHR ''n'')), symbol = take 16 (py (replicate 20 CHR ''s'')),
           decimals = 8, kind = py ''GENERIC'', energy_binding_factor = 0\<rparr>]"
    "wallets bc' = map (\<lambda>w. \<lparr>address = address w,
                               token_count = int (length (token_types ex_chain)) + 1,
                               tokens = token_types bc',
                               balances = balances w @ [0]\<rparr>) (wallets ex_chain)"
    "aligned bc'"
    by blast
  have "int (length (token_types ex_chain)) = 1"
    by (simp add: ex_chain_def)
  moreover have "map balances (wallets bc') = [[10, 0], [0, 0]]"
    unfolding b(3) by (simp add: ex_chain_def)
  moreover have "map name (token_types bc') = [py ''ELTT'', py (replicate 64 CHR ''n'')]"
    unfolding b(2) by (simp add: ex_chain_def ex_token_def take_py)
  moreover have "map symbol (token_types bc') = [py ''ELTT'', py (replicate 16 CHR ''s'')]"
    unfolding b(2) by (simp add: ex_chain_def ex_token_def take_py)
  ultimately show ?thesis using full al b(1,4) by auto
qed

section \<open>Chain engine\<close>

lemma compute_block_hash_tmp:
  "compute_block_hash sha256
     \<lparr>index = index b, timestamp = timestamp b, prev_hash = prev_hash b, hash = h, txs = txs b\<rparr>
   = compute_block_hash sha256 b"
proof -
  have "serialize_block_header
      \<lparr>index = index b, timestamp = timestamp b, prev_hash = prev_hash b, hash = h, txs = txs b\<rparr>
    = serialize_block_header b"
    by (rule serialize_block_header_cong) simp_all
  then show ?thesis
    unfolding compute_block_hash_def by simp
qed

lemma validate_block_alt:
  "validate_block sha256 bc block =
     (if (if index block = 0 then prev_hash block \<noteq> zero_hash
          else blocks bc = [] \<or> index block \<noteq> index (last (blocks bc)) + 1
               \<or> prev_hash block \<noteq> hash (last (blocks bc)))
      then Inr False
      else case serialize_block_header block of
             Inl e \<Rightarrow> Inl e
           | Inr hdr \<Rightarrow>
               if sha256 hdr \<noteq> hash block then Inr False else validate_txs bc (txs block))"
  by (simp add: validate_block_def compute_block_hash_tmp)
     (simp add: compute_block_hash_def split: sum.splits)

lemma hashed_block_header:
  "0 \<le> ts \<Longrightarrow> ts < 2 ^ 64 \<Longrightarrow> int (length tx_list) < 2 ^ 64 \<Longrightarrow>
   serialize_block_header (hashed_block sha256 ts tx_list) =
     Inr (be_bytes 4 0 @ be_bytes 8 ts @ zero_hash @ be_bytes 8 (int (length tx_list)))"
  by (simp add: serialize_block_header_fits hashed_block_def)

lemma validate_hashed_block:
  "0 \<le> ts \<Longrightarrow> ts < 2 ^ 64 \<Longrightarrow> int (length tx_list) < 2 ^ 64 \<Longrightarrow>
   validate_block sha256 bc (hashed_block sha256 ts tx_list) = validate_txs bc tx_list"
  by (simp add: validate_block_alt hashed_block_header) (simp add: hashed_block_def)

lemma validate_tx_a_ex_chain: "validate_transaction ex_chain tx_a = Inr True"
  by (simp add: validate_transaction_def ex_chain_def tx_a_def find_wallet_index_def
      balance_at_def py_index_def kind_defs)

text \<open>
  Claim C1 (the code departs from it).  \<open>ex_chain\<close> satisfies the data-model invariants and
  alice holds 10.  A block with two transfers of 10 from alice to bob is accepted, since
  each transfer is validated against the pre-block state; applying both leaves alice
  with \<open>-10\<close>.
\<close>

theorem append_block_double_spend:
  "aligned ex_chain
   \<and> distinct (map address (wallets ex_chain))
   \<and> list_all (\<lambda>w. list_all (\<lambda>b. 0 \<le> b) (balances w)) (wallets ex_chain)
   \<and> validate_transaction ex_chain tx_a = Inr True
   \<and> (\<exists>bc'. append_block sha256 ex_chain (hashed_block sha256 0 [tx_a, tx_a]) = Inr (True, bc')
          \<and> map address (wallets bc') = [py ''alice'', py ''bob'']
          \<and> map balances (wallets bc') = [[- 10], [20]])"
proof -
  have inv: "aligned ex_chain" "distinct (map address (wallets ex_chain))"
    "list_all (\<lambda>w. list_all (\<lambda>b. 0 \<le> b) (balances w)) (wallets ex_chain)"
    by (simp_all add: aligned_def ex_chain_def)
  have v: "validate_block sha256 ex_chain (hashed_block sha256 0 [tx_a, tx_a]) = Inr True"
    by (simp add: validate_hashed_block validate_tx_a_ex_chain)
  have a: "apply_txs (ex_chain\<lparr>blocks := blocks ex_chain @ [hashed_block sha256 0 [tx_a, tx_a]]\<rparr>)
             [tx_a, tx_a]
           = Inr (ex_chain\<lparr>blocks := [hashed_block sha256 0 [tx_a, tx_a]],
                wallets := [\<lparr>address = py ''alice'', token_count = 1, tokens = [ex_token],
                              balances = [- 10]\<rparr>,
                            \<lparr>address = py ''bob'', token_count = 1, tokens = [ex_token],
                              balances = [20]\<rparr>]\<rparr>)"
    by (simp add: apply_transaction_def find_or_create_wallet_def find_wallet_index_def
        balance_isub_def balance_iadd_def balance_update_def fadd_def fsub_def py_index_def ex_chain_def tx_a_def kind_defs)
  have "append_block sha256 ex_chain (hashed_block sha256 0 [tx_a, tx_a])
        = Inr (True, ex_chain\<lparr>blocks := [hashed_block sha256 0 [tx_a, tx_a]],
                wallets := [\<lparr>address = py ''alice'', token_count = 1, tokens = [ex_token],
                              balances = [- 10]\<rparr>,
                            \<lparr>address = py ''bob'', token_count = 1, tokens = [ex_token],
                              balances = [20]\<rparr>]\<rparr>)"
    unfolding append_block_def v using a by (simp add: hashed_block_def)
  with inv validate_tx_a_ex_chain show ?thesis by simp
qed

lemma append_hashed_empty_block:
  "0 \<le> ts \<Longrightarrow> ts < 2 ^ 64 \<Longrightarrow>
   append_block sha256 bc (hashed_block sha256 ts []) =
     Inr (True, bc\<lparr>blocks := blocks bc @ [hashed_block sha256 ts []]\<rparr>)"
  by (simp add: append_block_def validate_hashed_block) (simp add: hashed_block_def)

text \<open>
  Claim C3 (the code departs from it).  Starting from the empty chain, the genesis block
  that \<open>build_genesis_block\<close> builds is appended, and then a second block with index 0 and
  zero previous-hash is appended as well: \<open>_validate_block\<close> does not ask whether the chain
  is empty when the candidate's index is 0.  The chain then holds index 0 at position 1.
\<close>

theorem append_block_second_genesis:
  "build_genesis_block sha256 (py ''owner'') 0 = Inr (hashed_block sha256 0 [])
   \<and> append_block sha256 empty_chain (hashed_block sha256 0 [])
       = Inr (True, empty_chain\<lparr>blocks := [hashed_block sha256 0 []]\<rparr>)
   \<and> append_block sha256 (empty_chain\<lparr>blocks := [hashed_block sha256 0 []]\<rparr>)
         (hashed_block sha256 5 [])
       = Inr (True, empty_chain\<lparr>blocks := [hashed_block sha256 0 [], hashed_block sha256 5 []]\<rparr>)
   \<and> map index [hashed_block sha256 0 [], hashed_block sha256 5 []] = [0, 0]"
proof -
  have g: "build_genesis_block sha256 (py ''owner'') 0 = Inr (hashed_block sha256 0 [])"
    by (simp add: build_genesis_block_def compute_block_hash_def serialize_block_header_fits
        Let_def hashed_block_def)
  have a1: "append_block sha256 empty_chain (hashed_block sha256 0 [])
       = Inr (True, empty_chain\<lparr>blocks := [hashed_block sha256 0 []]\<rparr>)"
    using append_hashed_empty_block[of 0 sha256 empty_chain]
    by (simp add: empty_chain_def)
  have a2: "append_block sha256 (empty_chain\<lparr>blocks := [hashed_block sha256 0 []]\<rparr>)
         (hashed_block sha256 5 [])
       = Inr (True, empty_chain\<lparr>blocks := [hashed_block sha256 0 [], hashed_block sha256 5 []]\<rparr>)"
    using append_hashed_empty_block[of 5 sha256 "empty_chain\<lparr>blocks := [hashed_block sha256 0 []]\<rparr>"]
    by (simp add: empty_chain_def)
  have i: "map index [hashed_block sha256 0 [], hashed_block sha256 5 []] = [0, 0]"
    by (simp add: hashed_block_def)
  from g a1 a2 i show ?thesis by blast
qed

lemma find_wallet_from_range:
  "find_wallet_from ws a i = - 1 \<or>
   (i \<le> find_wallet_from ws a i \<and> find_wallet_from ws a i < i + int (length ws))"
proof (induction ws arbitrary: i)
  case Nil
  show ?case by simp
next
  case (Cons w ws)
  from Cons.IH[of "i + 1"] show ?case by auto
qed

lemma find_wallet_index_range:
  "0 \<le> find_wallet_index bc a \<Longrightarrow> find_wallet_index bc a < int (length (wallets bc))"
  using find_wallet_from_range[of "wallets bc" a 0]
  by (auto simp: find_wallet_index_def)

lemma py_index_nonneg:
  "0 \<le> i \<Longrightarrow> i < int (length xs) \<Longrightarrow> py_index xs i = Some (nat i)"
  by (simp add: py_index_def)

lemma balance_at_aligned:
  assumes "aligned bc" and "0 \<le> wi" and "wi < int (length (wallets bc))"
    and "0 \<le> ti" and "ti < int (length (token_types bc))"
  shows "balance_at bc wi ti = Inr (balances (wallets bc ! nat wi) ! nat ti)"
proof -
  have "wallets bc ! nat wi \<in> set (wallets bc)"
    using assms(2,3) by simp
  then have "length (balances (wallets bc ! nat wi)) = length (token_types bc)"
    using assms(1) by (simp add: aligned_def list_all_iff)
  then show ?thesis
    using assms by (simp add: balance_at_def py_index_nonneg)
qed

lemma validate_transaction_aligned:
  assumes "aligned bc"
  shows "validate_transaction bc tx = Inr True \<or> validate_transaction bc tx = Inr False"
proof (cases "token_index tx < 0 \<or> token_index tx \<ge> int (length (token_types bc))")
  case True
  then show ?thesis by (simp add: validate_transaction_def)
next
  case False
  then have ti: "0 \<le> token_index tx" "token_index tx < int (length (token_types bc))"
    by simp_all
  show ?thesis
  proof (cases "find_wallet_index bc (from_address tx) < 0")
    case True
    then show ?thesis
      by (simp add: validate_transaction_def Let_def)
  next
    case nf: False
    then obtain b
      where "balance_at bc (find_wallet_index bc (from_address tx)) (token_index tx) = Inr b"
      using balance_at_aligned[OF assms _ find_wallet_index_range ti] by simp
    then show ?thesis
      by (simp add: validate_transaction_def Let_def)
  qed
qed

lemma validate_txs_aligned:
  assumes "aligned bc"
  shows "validate_txs bc l = Inr (list_all (\<lambda>tx. validate_transaction bc tx = Inr True) l)"
proof (induction l)
  case Nil
  show ?case by simp
next
  case (Cons tx l)
  from validate_transaction_aligned[OF assms, of tx] Cons show ?case
    by auto
qed

lemma append_block_of_validate_False:
  "validate_block sha256 bc block = Inr False \<Longrightarrow> append_block sha256 bc block = Inr (False, bc)"
  by (simp add: append_block_def)

text \<open>
  Rejection.  \<open>append_block\<close> returns False and leaves the whole aggregate as it was
  whenever
  \<^item> the candidate's index is not 0 and the chain is empty, or its index differs from the
    last block's index plus one, or its previous-hash differs from the last block's hash;
  \<^item> or its index is 0 and its previous-hash is not 32 zero bytes;
  \<^item> or its header can be packed and its stored hash differs from the digest of the header;
  \<^item> or its header can be packed, every wallet's balance vector is as long as the
    token-type list, and some contained transaction fails validation against the
    pre-block state.
\<close>

lemma append_block_rejects:
  assumes "(index block \<noteq> 0 \<and> (blocks bc = [] \<or> index block \<noteq> index (last (blocks bc)) + 1
                               \<or> prev_hash block \<noteq> hash (last (blocks bc))))
     \<or> (index block = 0 \<and> prev_hash block \<noteq> zero_hash)
     \<or> (\<exists>hdr. serialize_block_header block = Inr hdr \<and> hash block \<noteq> sha256 hdr)
     \<or> (\<exists>hdr. serialize_block_header block = Inr hdr \<and> aligned bc
            \<and> list_ex (\<lambda>tx. validate_transaction bc tx = Inr False) (txs block))"
  shows "append_block sha256 bc block = Inr (False, bc)"
proof -
  let ?link = "if index block = 0 then prev_hash block \<noteq> zero_hash
          else blocks bc = [] \<or> index block \<noteq> index (last (blocks bc)) + 1
               \<or> prev_hash block \<noteq> hash (last (blocks bc))"
  have "validate_block sha256 bc block = Inr False"
  proof (cases ?link)
    case True
    then show ?thesis by (auto simp: validate_block_alt split: if_splits)
  next
    case False
    with assms consider
        hdr where "serialize_block_header block = Inr hdr" "hash block \<noteq> sha256 hdr"
      | hdr where "serialize_block_header block = Inr hdr" "aligned bc"
          "list_ex (\<lambda>tx. validate_transaction bc tx = Inr False) (txs block)"
      by (auto split: if_splits)
    then show ?thesis
    proof cases
      case 1
      with False show ?thesis by (auto simp: validate_block_alt)
    next
      case 2
      from 2(3) have "\<not> list_all (\<lambda>tx. validate_transaction bc tx = Inr True) (txs block)"
        by (force simp: list_ex_iff list_all_iff)
      with False 2(1) validate_txs_aligned[OF 2(2), of "txs block"] show ?thesis
        by (auto simp: validate_block_alt)
    qed
  qed
  then show ?thesis by (rule append_block_of_validate_False)
qed

lemma append_block_rejects_examples:
  "append_block test_digest empty_chain (hashed_block test_digest 0 [] \<lparr>index := 5\<rparr>)
     = Inr (False, empty_chain)
   \<and> append_block test_digest empty_chain (hashed_block test_digest 0 [] \<lparr>prev_hash := [7]\<rparr>)
     = Inr (False, empty_chain)
   \<and> append_block test_digest empty_chain (hashed_block test_digest 0 [] \<lparr>hash := []\<rparr>)
     = Inr (False, empty_chain)
   \<and> validate_transaction ex_chain tx_a = Inr True
   \<and> append_block test_digest ex_chain (hashed_block test_digest 0 [tx_a, tx_over])
     = Inr (False, ex_chain)"
proof (intro conjI)
  show "append_block test_digest empty_chain (hashed_block test_digest 0 [] \<lparr>index := 5\<rparr>)
     = Inr (False, empty_chain)"
    by (rule append_block_rejects) (simp add: hashed_block_def empty_chain_def)
  show "append_block test_digest empty_chain (hashed_block test_digest 0 [] \<lparr>prev_hash := [7]\<rparr>)
     = Inr (False, empty_chain)"
  proof -
    have ne: "[7 :: byte] \<noteq> zero_hash"
      by (rule notI) (drule arg_cong[where f = length], simp add: zero_hash_def)
    show ?thesis
      by (rule append_block_rejects) (simp add: hashed_block_def ne)
  qed
  have "serialize_block_header (hashed_block test_digest 0 [] \<lparr>hash := []\<rparr>)
        = serialize_block_header (hashed_block test_digest 0 [])"
    by (rule serialize_block_header_cong) simp_all
  then have "\<exists>hdr. serialize_block_header (hashed_block test_digest 0 [] \<lparr>hash := []\<rparr>) = Inr hdr
        \<and> hash (hashed_block test_digest 0 [] \<lparr>hash := []\<rparr>) \<noteq> test_digest hdr"
    by (simp add: hashed_block_header test_digest_def)
  then show "append_block test_digest empty_chain (hashed_block test_digest 0 [] \<lparr>hash := []\<rparr>)
     = Inr (False, empty_chain)"
    by (rule append_block_rejects[OF disjI2[OF disjI2[OF disjI1]]])
  show "validate_transaction ex_chain tx_a = Inr True"
    by (rule validate_tx_a_ex_chain)
  have al: "aligned ex_chain"
    by (simp add: aligned_def ex_chain_def)
  have bad: "validate_transaction ex_chain tx_over = Inr False"
    by (simp add: validate_transaction_def ex_chain_def tx_over_def find_wallet_index_def
        balance_at_def py_index_def kind_defs)
  have "\<exists>hdr. serialize_block_header (hashed_block test_digest 0 [tx_a, tx_over]) = Inr hdr
        \<and> aligned ex_chain
        \<and> list_ex (\<lambda>tx. validate_transaction ex_chain tx = Inr False)
             (txs (hashed_block test_digest 0 [tx_a, tx_over]))"
    using al bad by (simp add: hashed_block_header) (simp add: hashed_block_def)
  then show "append_block test_digest ex_chain (hashed_block test_digest 0 [tx_a, tx_over])
     = Inr (False, ex_chain)"
    by (rule append_block_rejects[OF disjI2[OF disjI2[OF disjI2]]])
qed

text \<open>
  Claim C2.  A candidate whose previous-hash differs from the last block's hash must be
  rejected with the state unchanged.  The chain here holds one block with index 0 and a
  non-zero stored hash; the candidate has index 0, timestamp 5, a previous-hash of 32 zero
  bytes and the digest of its own header as stored hash.  Its previous-hash is not the
  last block's hash and its index is not the last index plus one, and \<open>append_block\<close>
  returns True and appends it: for a candidate with index 0 \<open>_validate_block\<close> compares
  the previous-hash with 32 zero bytes only.
\<close>

theorem append_block_unlinked_genesis:
  "\<forall>sha256.
     prev_hash (hashed_block sha256 5 [])
       \<noteq> hash (last (blocks (empty_chain\<lparr>blocks :=
              [\<lparr>index = 0, timestamp = 0, prev_hash = zero_hash, hash = replicate 32 1,
                txs = []\<rparr>]\<rparr>)))
     \<and> index (hashed_block sha256 5 [])
       \<noteq> index (last (blocks (empty_chain\<lparr>blocks :=
              [\<lparr>index = 0, timestamp = 0, prev_hash = zero_hash, hash = replicate 32 1,
                txs = []\<rparr>]\<rparr>))) + 1
     \<and> append_block sha256
          (empty_chain\<lparr>blocks :=
              [\<lparr>index = 0, timestamp = 0, prev_hash = zero_hash, hash = replicate 32 1,
                txs = []\<rparr>]\<rparr>)
          (hashed_block sha256 5 [])
        = Inr (True, empty_chain\<lparr>blocks :=
              [\<lparr>index = 0, timestamp = 0, prev_hash = zero_hash, hash = replicate 32 1,
                txs = []\<rparr>, hashed_block sha256 5 []]\<rparr>)"
proof (intro allI conjI)
  fix sha256 :: "bytes \<Rightarrow> bytes"
  show "prev_hash (hashed_block sha256 5 [])
       \<noteq> hash (last (blocks (empty_chain\<lparr>blocks :=
              [\<lparr>index = 0, timestamp = 0, prev_hash = zero_hash, hash = replicate 32 1,
                txs = []\<rparr>]\<rparr>)))"
    by (simp add: hashed_block_def zero_hash_def)
  show "index (hashed_block sha256 5 [])
       \<noteq> index (last (blocks (empty_chain\<lparr>blocks :=
              [\<lparr>index = 0, timestamp = 0, prev_hash = zero_hash, hash = replicate 32 1,
                txs = []\<rparr>]\<rparr>))) + 1"
    by (simp add: hashed_block_def)
  show "append_block sha256
          (empty_chain\<lparr>blocks :=
              [\<lparr>index = 0, timestamp = 0, prev_hash = zero_hash, hash = replicate 32 1,
                txs = []\<rparr>]\<rparr>)
          (hashed_block sha256 5 [])
        = Inr (True, empty_chain\<lparr>blocks :=
              [\<lparr>index = 0, timestamp = 0, prev_hash = zero_hash, hash = replicate 32 1,
                txs = []\<rparr>, hashed_block sha256 5 []]\<rparr>)"
    by (simp add: append_hashed_empty_block)
qed

section \<open>Conservation\<close>



lemma total_balance_blocks [simp]: "total_balance (bc\<lparr>blocks := bs\<rparr>) k = total_balance bc k"
  by (simp add: total_balance_def)






text \<open>The blocks of the aggregate play no part in applying transactions.\<close>

lemma find_or_create_wallet_blocks:
  "find_or_create_wallet (bc\<lparr>blocks := bs\<rparr>) a
     = (case find_or_create_wallet bc a of (r, bc1) \<Rightarrow> (r, bc1\<lparr>blocks := bs\<rparr>))"
  by (simp add: find_or_create_wallet_def find_wallet_index_def add_wallet_def Let_def)

lemma balance_update_blocks:
  "balance_update op (bc\<lparr>blocks := bs\<rparr>) wi ti a
     = (case balance_update op bc wi ti a of Inl e \<Rightarrow> Inl e | Inr b \<Rightarrow> Inr (b\<lparr>blocks := bs\<rparr>))"
  by (simp add: balance_update_def Let_def split: option.splits)

lemma held_blocks [simp]: "held (bc\<lparr>blocks := bs\<rparr>) wi t = held bc wi t"
  by (simp add: held_def split: option.splits)


lemma tx_unrounded_blocks [simp]: "tx_unrounded (bc\<lparr>blocks := bs\<rparr>) tx = tx_unrounded bc tx"
proof -
  obtain fi bc1 where f: "find_or_create_wallet bc (from_address tx) = (fi, bc1)"
    by (cases "find_or_create_wallet bc (from_address tx)")
  obtain toi bc2 where t: "find_or_create_wallet bc1 (to_address tx) = (toi, bc2)"
    by (cases "find_or_create_wallet bc1 (to_address tx)")
  have f': "find_or_create_wallet (bc\<lparr>blocks := bs\<rparr>) (from_address tx)
      = (fi, bc1\<lparr>blocks := bs\<rparr>)"
    by (simp add: find_or_create_wallet_blocks f)
  have t': "find_or_create_wallet (bc1\<lparr>blocks := bs\<rparr>) (to_address tx)
      = (toi, bc2\<lparr>blocks := bs\<rparr>)"
    by (simp add: find_or_create_wallet_blocks t)
  show ?thesis
    unfolding tx_unrounded_def f f' t t' Let_def prod.case balance_isub_def
    by (cases "balance_update fsub bc2 fi (token_index tx) (amount tx)")
       (simp_all add: balance_update_blocks)
qed





lemma round_half_even_numeral [simp]: "round_half_even (numeral k) = numeral k"
  using round_half_even_of_int[of "numeral k"] by simp









section \<open>A full wallet registry\<close>





lemma address_adjust [simp]: "address (adjust op w t a) = address w"
  by (simp add: adjust_def)





section \<open>Full-state validator\<close>

lemma check_wallets_loop_codes:
  "check_wallets_loop state ws \<in> {None, Some WALLET_ADDRESS_INVALID,
     Some TX_TOKEN_INDEX_INVALID, Some WALLET_BALANCE_NEGATIVE}"
  by (induction ws) auto

lemma check_pools_loop_codes:
  "check_pools_loop n ps \<in> {None, Some POOL_INDEX_INVALID, Some POOL_RESERVE_NEGATIVE}"
  by (induction ps) auto

lemma check_stakes_loop_codes:
  "check_stakes_loop n ss \<in> {None, Some STAKE_OWNER_INVALID, Some TX_TOKEN_INDEX_INVALID,
     Some STAKE_AMOUNT_NEGATIVE, Some STAKE_TIME_INCONSISTENT}"
  by (induction ss) auto

lemma check_txs_loop_codes:
  "check_txs_loop py_hash state l seen \<in> {None, Some TX_TOKEN_INDEX_INVALID,
     Some TX_AMOUNT_NEGATIVE, Some TX_KIND_INVALID, Some WALLET_ADDRESS_INVALID,
     Some TX_REPLAY_DUPLICATE_IN_BLOCK}"
  by (induction l arbitrary: seen) (auto simp: Let_def)

lemma check_block_transactions_codes:
  "check_block_transactions py_hash state blk \<in> {None, Some UNKNOWN,
     Some TX_TOKEN_INDEX_INVALID, Some TX_AMOUNT_NEGATIVE, Some TX_KIND_INVALID,
     Some WALLET_ADDRESS_INVALID, Some TX_REPLAY_DUPLICATE_IN_BLOCK}"
  using check_txs_loop_codes[of py_hash state "v_txs blk" "[]"]
  by (auto simp: check_block_transactions_def)

lemma check_chain_loop_no_hash_code:
  "check_chain_loop py_hash state prev ts l \<noteq> Some BLOCK_HASH_MISMATCH"
proof (induction l arbitrary: prev ts)
  case Nil
  show ?case by simp
next
  case (Cons blk l)
  have "check_block_transactions py_hash state blk \<noteq> Some BLOCK_HASH_MISMATCH"
    using check_block_transactions_codes[of py_hash state blk] by auto
  with Cons show ?case
    by (auto split: option.splits if_splits)
qed

lemma check_wallets_loop_state:
  "v_token_types s1 = v_token_types s2 \<Longrightarrow>
   check_wallets_loop s1 ws = check_wallets_loop s2 ws"
  by (induction ws) simp_all

lemma check_txs_loop_state:
  "v_token_types s1 = v_token_types s2 \<Longrightarrow>
   check_txs_loop py_hash s1 l seen = check_txs_loop py_hash s2 l seen"
  by (induction l arbitrary: seen) (simp_all add: Let_def)

lemma check_block_transactions_state:
  "v_token_types s1 = v_token_types s2 \<Longrightarrow> v_txs b1 = v_txs b2 \<Longrightarrow>
   check_block_transactions py_hash s1 b1 = check_block_transactions py_hash s2 b2"
  by (simp add: check_block_transactions_def check_txs_loop_state[of s1 s2])

lemma check_chain_loop_last_hash:
  "v_token_types s1 = v_token_types s2 \<Longrightarrow>
   check_chain_loop py_hash s1 prev ts (bs @ [b\<lparr>v_hash := h\<rparr>])
     = check_chain_loop py_hash s2 prev ts (bs @ [b])"
proof (induction bs arbitrary: prev ts)
  case Nil
  have "check_block_transactions py_hash s1 (b\<lparr>v_hash := h\<rparr>)
      = check_block_transactions py_hash s2 b"
    using Nil by (intro check_block_transactions_state) simp_all
  then show ?case
    by (simp split: option.splits)
next
  case (Cons blk bs)
  have "check_block_transactions py_hash s1 blk = check_block_transactions py_hash s2 blk"
    using Cons.prems by (intro check_block_transactions_state) simp_all
  with Cons.IH[OF Cons.prems] show ?case
    by (simp split: option.splits)
qed

lemma all_TxKind_members: "k \<in> set TxKind_members"
  by (cases k) (simp_all add: TxKind_members_def)

lemma check_txs_loop_step:
  "tx_fields_ok state tx \<Longrightarrow>
   check_txs_loop py_hash state (tx # rest) seen =
     (if py_hash (tx_fingerprint tx) \<in> set seen then Some TX_REPLAY_DUPLICATE_IN_BLOCK
      else check_txs_loop py_hash state rest (seen @ [py_hash (tx_fingerprint tx)]))"
  by (simp add: tx_fields_ok_def all_TxKind_members Let_def)

lemma check_txs_loop_fails:
  "\<not> tx_fields_ok state tx \<Longrightarrow> check_txs_loop py_hash state (tx # rest) seen \<noteq> None"
  by (auto simp: tx_fields_ok_def Let_def)

lemma check_txs_loop_None:
  "check_txs_loop py_hash state l seen = None \<longleftrightarrow>
     list_all (tx_fields_ok state) l
     \<and> distinct (map (\<lambda>tx. py_hash (tx_fingerprint tx)) l)
     \<and> list_all (\<lambda>tx. py_hash (tx_fingerprint tx) \<notin> set seen) l"
proof (induction l arbitrary: seen)
  case Nil
  show ?case by simp
next
  case (Cons tx l)
  show ?case
  proof (cases "tx_fields_ok state tx")
    case False
    with check_txs_loop_fails[OF False, of py_hash l seen] show ?thesis by simp
  next
    case True
    show ?thesis
      unfolding check_txs_loop_step[OF True]
      by (auto simp: Cons.IH True list_all_iff image_iff)
  qed
qed

lemma check_block_transactions_None:
  "check_block_transactions py_hash state blk = None
     \<longleftrightarrow> block_txs_ok state blk \<and> no_replay py_hash blk"
  by (auto simp: check_block_transactions_def check_txs_loop_None block_txs_ok_def
      no_replay_def ELTT_MAX_TX_PER_BLOCK_def list_all_iff)

lemma check_chain_loop_Some_None:
  "check_chain_loop py_hash state (Some p) (v_timestamp p) bs = None \<longleftrightarrow>
     chain_links_ok (p # bs) \<and> list_all (block_txs_ok state) bs
     \<and> list_all (no_replay py_hash) bs"
proof (induction bs arbitrary: p)
  case Nil
  show ?case by simp
next
  case (Cons b bs)
  show ?case
    by (cases "check_block_transactions py_hash state b")
       (use check_block_transactions_None[of py_hash state b] in \<open>auto simp: Cons.IH\<close>)
qed

lemma check_chain_None:
  "check_chain py_hash state = None \<longleftrightarrow>
     v_blocks state \<noteq> [] \<and> v_prev_hash (hd (v_blocks state)) = zero_hash
     \<and> chain_links_ok (v_blocks state) \<and> list_all (block_txs_ok state) (v_blocks state)
     \<and> list_all (no_replay py_hash) (v_blocks state)"
proof (cases "v_blocks state")
  case Nil
  then show ?thesis by (simp add: check_chain_def)
next
  case (Cons b bs)
  show ?thesis
    unfolding check_chain_def Cons
    by (cases "check_block_transactions py_hash state b")
       (use check_block_transactions_None[of py_hash state b]
          check_chain_loop_Some_None[of py_hash state b bs] in \<open>auto\<close>)
qed

lemma check_chain_loop_not_OK:
  "check_chain_loop py_hash state prev ts l \<noteq> Some OK"
proof (induction l arbitrary: prev ts)
  case Nil
  show ?case by simp
next
  case (Cons blk l)
  have "check_block_transactions py_hash state blk \<noteq> Some OK"
    using check_block_transactions_codes[of py_hash state blk] by auto
  with Cons show ?case
    by (auto split: option.splits if_splits)
qed

lemma validate_blockchain_OK:
  "validate_blockchain py_hash (Some state) = OK
     \<longleftrightarrow> earlier_checks_pass state \<and> list_all (no_replay py_hash) (v_blocks state)"
proof -
  have w: "check_wallets state \<noteq> Some OK"
    using check_wallets_loop_codes[of state "v_wallets state"] by (auto simp: check_wallets_def)
  have p: "check_pools state \<noteq> Some OK"
    using check_pools_loop_codes[of "int (length (v_token_types state))" "v_pools state"]
    by (auto simp: check_pools_def)
  have s: "check_stakes state \<noteq> Some OK"
    using check_stakes_loop_codes[of "int (length (v_token_types state))" "v_stakes state"]
    by (auto simp: check_stakes_def)
  have c: "check_chain py_hash state \<noteq> Some OK"
    using check_chain_loop_not_OK[of py_hash state None 0 "v_blocks state"]
    by (simp add: check_chain_def)
  have "validate_blockchain py_hash (Some state) = OK
     \<longleftrightarrow> check_token_symbols_unique state \<and> check_wallets state = None
         \<and> check_pools state = None \<and> check_stakes state = None
         \<and> check_chain py_hash state = None"
    using w p s c by (auto simp: validate_blockchain_def split: option.splits)
  then show ?thesis
    unfolding check_chain_None earlier_checks_pass_def by blast
qed

text \<open>
  Claim C9.  The validator never reports BLOCK_HASH_MISMATCH and computes no digest
  (\<open>validate_blockchain\<close> takes no digest function).  Its verdict is OK exactly when the
  token symbols are unique, the wallet, pool and stake checks pass, the chain is not
  empty, the first block's previous-hash is 32 zero bytes, every later block has the
  index of its predecessor plus one, the predecessor's stored hash as previous-hash and a
  timestamp not below the predecessor's, every block has at most 256 transactions whose
  fields pass the checks, and no block holds two transactions with the same fingerprint
  hash.  A stored hash enters only as the value that the next block's previous-hash is
  compared with: whether it is the digest of its block's header plays no part, so a
  snapshot with incorrect stored hashes returns OK when these checks pass.  And replacing
  the stored hash of the last block of any snapshot by any bytes leaves the verdict as it
  is.
\<close>

theorem validate_blockchain_ignores_hash:
  "validate_blockchain py_hash state_opt \<noteq> BLOCK_HASH_MISMATCH
   \<and> (validate_blockchain py_hash (Some state) = OK
        \<longleftrightarrow> check_token_symbols_unique state
            \<and> check_wallets state = None \<and> check_pools state = None
            \<and> check_stakes state = None
            \<and> v_blocks state \<noteq> [] \<and> v_prev_hash (hd (v_blocks state)) = zero_hash
            \<and> chain_links_ok (v_blocks state)
            \<and> list_all (block_txs_ok state) (v_blocks state)
            \<and> list_all (no_replay py_hash) (v_blocks state))
   \<and> validate_blockchain py_hash (Some (state\<lparr>v_blocks := bs @ [b\<lparr>v_hash := h\<rparr>]\<rparr>))
       = validate_blockchain py_hash (Some (state\<lparr>v_blocks := bs @ [b]\<rparr>))"
proof (intro conjI)
  show "validate_blockchain py_hash state_opt \<noteq> BLOCK_HASH_MISMATCH"
  proof (cases state_opt)
    case None
    then show ?thesis by (simp add: validate_blockchain_def)
  next
    case (Some st)
    have w: "check_wallets st \<noteq> Some BLOCK_HASH_MISMATCH"
      using check_wallets_loop_codes[of st "v_wallets st"] by (auto simp: check_wallets_def)
    have p: "check_pools st \<noteq> Some BLOCK_HASH_MISMATCH"
      using check_pools_loop_codes[of "int (length (v_token_types st))" "v_pools st"]
      by (auto simp: check_pools_def)
    have s: "check_stakes st \<noteq> Some BLOCK_HASH_MISMATCH"
      using check_stakes_loop_codes[of "int (length (v_token_types st))" "v_stakes st"]
      by (auto simp: check_stakes_def)
    have c: "check_chain py_hash st \<noteq> Some BLOCK_HASH_MISMATCH"
      using check_chain_loop_no_hash_code[of py_hash st None 0 "v_blocks st"]
      by (simp add: check_chain_def)
    from w p s c show ?thesis
      by (auto simp: validate_blockchain_def Some split: option.splits)
  qed
next
  show "validate_blockchain py_hash (Some state) = OK
        \<longleftrightarrow> check_token_symbols_unique state
            \<and> check_wallets state = None \<and> check_pools state = None
            \<and> check_stakes state = None
            \<and> v_blocks state \<noteq> [] \<and> v_prev_hash (hd (v_blocks state)) = zero_hash
            \<and> chain_links_ok (v_blocks state)
            \<and> list_all (block_txs_ok state) (v_blocks state)
            \<and> list_all (no_replay py_hash) (v_blocks state)"
    unfolding validate_blockchain_OK earlier_checks_pass_def by blast
next
  let ?s1 = "state\<lparr>v_blocks := bs @ [b\<lparr>v_hash := h\<rparr>]\<rparr>"
  let ?s2 = "state\<lparr>v_blocks := bs @ [b]\<rparr>"
  have "check_chain py_hash ?s1 = check_chain py_hash ?s2"
    using check_chain_loop_last_hash[where ?s1.0 = ?s1 and ?s2.0 = ?s2 and prev = None
        and ts = 0 and bs = bs and b = b and h = h and py_hash = py_hash]
    by (simp add: check_chain_def)
  moreover have "check_token_symbols_unique ?s1 = check_token_symbols_unique ?s2"
    "check_wallets ?s1 = check_wallets ?s2" "check_pools ?s1 = check_pools ?s2"
    "check_stakes ?s1 = check_stakes ?s2"
    by (simp_all add: check_token_symbols_unique_def check_wallets_def check_pools_def
        check_stakes_def check_wallets_loop_state[of ?s1 ?s2])
  ultimately show "validate_blockchain py_hash (Some ?s1) = validate_blockchain py_hash (Some ?s2)"
    unfolding validate_blockchain_def option.case by (simp only:)
qed

theorem validate_blockchain_ignores_hash_witness:
  "\<forall>py_hash.
     check_token_symbols_unique v_snapshot2
     \<and> check_wallets v_snapshot2 = None \<and> check_pools v_snapshot2 = None
     \<and> check_stakes v_snapshot2 = None
     \<and> v_blocks v_snapshot2 \<noteq> [] \<and> v_prev_hash (hd (v_blocks v_snapshot2)) = zero_hash
     \<and> chain_links_ok (v_blocks v_snapshot2)
     \<and> list_all (block_txs_ok v_snapshot2) (v_blocks v_snapshot2)
     \<and> list_all (no_replay py_hash) (v_blocks v_snapshot2)
     \<and> map v_hash (v_blocks v_snapshot2) = [[1], []]
     \<and> map v_prev_hash (v_blocks v_snapshot2) = [zero_hash, [1]]
     \<and> validate_blockchain py_hash (Some v_snapshot2) = OK
     \<and> validate_blockchain py_hash (Some v_snapshot2) \<noteq> BLOCK_HASH_MISMATCH
     \<and> validate_blockchain py_hash
          (Some (v_snapshot2\<lparr>v_blocks := [hd (v_blocks v_snapshot2)]
                   @ [last (v_blocks v_snapshot2)\<lparr>v_hash := replicate 32 7\<rparr>]\<rparr>)) = OK"
proof
  fix py_hash :: "fingerprint \<Rightarrow> int"
  let ?b0 = "hd (v_blocks v_snapshot2)"
  let ?b1 = "last (v_blocks v_snapshot2)"
  have c: "check_token_symbols_unique v_snapshot2"
    "check_wallets v_snapshot2 = None" "check_pools v_snapshot2 = None"
    "check_stakes v_snapshot2 = None"
    "v_blocks v_snapshot2 \<noteq> []" "v_prev_hash (hd (v_blocks v_snapshot2)) = zero_hash"
    "chain_links_ok (v_blocks v_snapshot2)"
    "list_all (block_txs_ok v_snapshot2) (v_blocks v_snapshot2)"
    "list_all (no_replay py_hash) (v_blocks v_snapshot2)"
    by (simp_all add: v_snapshot2_def check_token_symbols_unique_def check_wallets_def
        check_pools_def check_stakes_def block_txs_ok_def tx_fields_ok_def no_replay_def
        v_tx_def is_address_valid_def ELTT_MAX_ADDRESS_LEN_def)
  have hs: "map v_hash (v_blocks v_snapshot2) = [[1], []]"
    "map v_prev_hash (v_blocks v_snapshot2) = [zero_hash, [1]]"
    by (simp_all add: v_snapshot2_def)
  have e: "v_snapshot2 = v_snapshot2\<lparr>v_blocks := [?b0] @ [?b1]\<rparr>"
    by (simp add: v_snapshot2_def)
  note t = validate_blockchain_ignores_hash[where py_hash = py_hash
      and state_opt = "Some v_snapshot2" and state = v_snapshot2 and bs = "[?b0]" and b = ?b1
      and h = "replicate 32 7"]
  from t c have ok: "validate_blockchain py_hash (Some v_snapshot2) = OK" by blast
  from t have nm: "validate_blockchain py_hash (Some v_snapshot2) \<noteq> BLOCK_HASH_MISMATCH"
    by blast
  from t have "validate_blockchain py_hash
          (Some (v_snapshot2\<lparr>v_blocks := [?b0] @ [?b1\<lparr>v_hash := replicate 32 7\<rparr>]\<rparr>))
      = validate_blockchain py_hash (Some (v_snapshot2\<lparr>v_blocks := [?b0] @ [?b1]\<rparr>))"
    by blast
  with e ok have ok2: "validate_blockchain py_hash
          (Some (v_snapshot2\<lparr>v_blocks := [?b0] @ [?b1\<lparr>v_hash := replicate 32 7\<rparr>]\<rparr>)) = OK"
    by simp
  show "check_token_symbols_unique v_snapshot2
     \<and> check_wallets v_snapshot2 = None \<and> check_pools v_snapshot2 = None
     \<and> check_stakes v_snapshot2 = None
     \<and> v_blocks v_snapshot2 \<noteq> [] \<and> v_prev_hash (hd (v_blocks v_snapshot2)) = zero_hash
     \<and> chain_links_ok (v_blocks v_snapshot2)
     \<and> list_all (block_txs_ok v_snapshot2) (v_blocks v_snapshot2)
     \<and> list_all (no_replay py_hash) (v_blocks v_snapshot2)
     \<and> map v_hash (v_blocks v_snapshot2) = [[1], []]
     \<and> map v_prev_hash (v_blocks v_snapshot2) = [zero_hash, [1]]
     \<and> validate_blockchain py_hash (Some v_snapshot2) = OK
     \<and> validate_blockchain py_hash (Some v_snapshot2) \<noteq> BLOCK_HASH_MISMATCH
     \<and> validate_blockchain py_hash
          (Some (v_snapshot2\<lparr>v_blocks := [hd (v_blocks v_snapshot2)]
                   @ [last (v_blocks v_snapshot2)\<lparr>v_hash := replicate 32 7\<rparr>]\<rparr>)) = OK"
    by (intro conjI c hs ok nm ok2)
qed

lemma check_txs_loop_fields_ok:
  "list_all (tx_fields_ok state) l \<Longrightarrow>
   check_txs_loop py_hash state l seen \<in> {None, Some TX_REPLAY_DUPLICATE_IN_BLOCK}"
proof (induction l arbitrary: seen)
  case Nil
  show ?case by simp
next
  case (Cons tx l)
  then have ok: "tx_fields_ok state tx" "list_all (tx_fields_ok state) l" by simp_all
  from Cons.IH[OF ok(2), of "seen @ [py_hash (tx_fingerprint tx)]"] show ?case
    by (simp add: check_txs_loop_step[OF ok(1)] del: check_txs_loop.simps)
qed

lemma check_txs_loop_duplicate:
  assumes "list_all (tx_fields_ok state) l"
    and "\<not> distinct (map (\<lambda>tx. py_hash (tx_fingerprint tx)) l)
         \<or> list_ex (\<lambda>tx. py_hash (tx_fingerprint tx) \<in> set seen) l"
  shows "check_txs_loop py_hash state l seen = Some TX_REPLAY_DUPLICATE_IN_BLOCK"
  using assms
proof (induction l arbitrary: seen)
  case Nil
  then show ?case by simp
next
  case (Cons tx l)
  let ?h = "py_hash (tx_fingerprint tx)"
  from Cons.prems(1) have ok: "tx_fields_ok state tx" "list_all (tx_fields_ok state) l"
    by simp_all
  show ?case
  proof (cases "?h \<in> set seen")
    case True
    then show ?thesis by (simp add: check_txs_loop_step[OF ok(1)] del: check_txs_loop.simps)
  next
    case False
    from Cons.prems(2) False
    have "\<not> distinct (map (\<lambda>tx. py_hash (tx_fingerprint tx)) l)
         \<or> list_ex (\<lambda>tx. py_hash (tx_fingerprint tx) \<in> set (seen @ [?h])) l"
      by (auto simp: list_ex_iff)
    from Cons.IH[OF ok(2) this] False show ?thesis
      by (simp add: check_txs_loop_step[OF ok(1)] del: check_txs_loop.simps)
  qed
qed

lemma not_distinct_map: "\<not> distinct l \<Longrightarrow> \<not> distinct (map f l)"
  by (auto simp: distinct_map)

lemma check_block_transactions_ok:
  assumes "block_txs_ok state blk"
  shows "check_block_transactions py_hash state blk \<in> {None, Some TX_REPLAY_DUPLICATE_IN_BLOCK}"
    and "\<not> distinct (v_txs blk) \<Longrightarrow>
         check_block_transactions py_hash state blk = Some TX_REPLAY_DUPLICATE_IN_BLOCK"
proof -
  from assms have l: "\<not> length (v_txs blk) > ELTT_MAX_TX_PER_BLOCK"
    and f: "list_all (tx_fields_ok state) (v_txs blk)"
    by (simp_all add: block_txs_ok_def ELTT_MAX_TX_PER_BLOCK_def)
  from l check_txs_loop_fields_ok[OF f, of py_hash "[]"]
  show "check_block_transactions py_hash state blk \<in> {None, Some TX_REPLAY_DUPLICATE_IN_BLOCK}"
    by (simp add: check_block_transactions_def)
  assume "\<not> distinct (v_txs blk)"
  then have "\<not> distinct (map (\<lambda>tx. py_hash (tx_fingerprint tx)) (v_txs blk))"
    by (rule not_distinct_map)
  with l check_txs_loop_duplicate[OF f, of py_hash "[]"]
  show "check_block_transactions py_hash state blk = Some TX_REPLAY_DUPLICATE_IN_BLOCK"
    by (simp add: check_block_transactions_def)
qed

lemma check_chain_loop_duplicate:
  assumes "chain_links_ok (p # l)" and "list_all (block_txs_ok state) l"
    and "list_ex (\<lambda>b. \<not> distinct (v_txs b)) l"
  shows "check_chain_loop py_hash state (Some p) (v_timestamp p) l
         = Some TX_REPLAY_DUPLICATE_IN_BLOCK"
  using assms
proof (induction l arbitrary: p)
  case Nil
  then show ?case by simp
next
  case (Cons blk l)
  from Cons.prems(1) have link: "v_index blk = v_index p + 1" "v_prev_hash blk = v_hash p"
    "\<not> v_timestamp blk < v_timestamp p" "chain_links_ok (blk # l)"
    by simp_all
  from Cons.prems(2) have ok: "block_txs_ok state blk" "list_all (block_txs_ok state) l"
    by simp_all
  show ?case
  proof (cases "check_block_transactions py_hash state blk")
    case (Some e)
    with check_block_transactions_ok(1)[OF ok(1), of py_hash]
    have "e = TX_REPLAY_DUPLICATE_IN_BLOCK" by simp
    with Some link show ?thesis by simp
  next
    case None
    with check_block_transactions_ok(2)[OF ok(1), of py_hash]
    have "distinct (v_txs blk)" by auto
    with Cons.prems(3) have "list_ex (\<lambda>b. \<not> distinct (v_txs b)) l" by simp
    from Cons.IH[OF link(4) ok(2) this] None link show ?thesis by simp
  qed
qed

text \<open>
  Claim C8.  If a snapshot passes every check of \<open>validate_blockchain\<close> other than the
  duplicate detection (token symbols unique; wallet, pool and stake checks; a non-empty
  chain with zero genesis previous-hash, index and previous-hash linkage and
  non-decreasing timestamps; at most 256 transactions per block, each with valid token
  index, amount and addresses) and some block holds two identical transactions, then
  the verdict is TX_REPLAY_DUPLICATE_IN_BLOCK.
\<close>

theorem validate_blockchain_duplicate:
  assumes "earlier_checks_pass state"
    and "list_ex (\<lambda>b. \<not> distinct (v_txs b)) (v_blocks state)"
  shows "validate_blockchain py_hash (Some state) = TX_REPLAY_DUPLICATE_IN_BLOCK"
proof -
  from assms(1) have pre: "check_token_symbols_unique state" "check_wallets state = None"
      "check_pools state = None" "check_stakes state = None"
    and ne: "v_blocks state \<noteq> []" and gen: "v_prev_hash (hd (v_blocks state)) = zero_hash"
    and links: "chain_links_ok (v_blocks state)"
    and oks: "list_all (block_txs_ok state) (v_blocks state)"
    by (simp_all add: earlier_checks_pass_def)
  from ne obtain g l where gl: "v_blocks state = g # l" by (cases "v_blocks state") auto
  from oks gl have ok: "block_txs_ok state g" "list_all (block_txs_ok state) l" by simp_all
  have "check_chain_loop py_hash state None 0 (g # l) = Some TX_REPLAY_DUPLICATE_IN_BLOCK"
  proof (cases "check_block_transactions py_hash state g")
    case (Some e)
    with check_block_transactions_ok(1)[OF ok(1), of py_hash]
    have "e = TX_REPLAY_DUPLICATE_IN_BLOCK" by simp
    with Some gen gl show ?thesis by simp
  next
    case None
    with check_block_transactions_ok(2)[OF ok(1), of py_hash]
    have "distinct (v_txs g)" by auto
    with assms(2) gl have "list_ex (\<lambda>b. \<not> distinct (v_txs b)) l" by simp
    from check_chain_loop_duplicate[OF _ ok(2) this, of g py_hash] links gl None gen
    show ?thesis by simp
  qed
  then have "check_chain py_hash state = Some TX_REPLAY_DUPLICATE_IN_BLOCK"
    using gl by (simp add: check_chain_def)
  with pre show ?thesis
    by (simp add: validate_blockchain_def)
qed

theorem validate_blockchain_duplicate_witness:
  "\<forall>py_hash.
     earlier_checks_pass (v_snapshot [] [v_tx, v_tx\<lparr>v_memo := ''m''\<rparr>, v_tx])
     \<and> validate_blockchain py_hash (Some (v_snapshot [] [v_tx, v_tx\<lparr>v_memo := ''m''\<rparr>, v_tx]))
         = TX_REPLAY_DUPLICATE_IN_BLOCK"
proof
  fix py_hash :: "fingerprint \<Rightarrow> int"
  let ?s = "v_snapshot [] [v_tx, v_tx\<lparr>v_memo := ''m''\<rparr>, v_tx]"
  have e: "earlier_checks_pass ?s"
    by (simp add: earlier_checks_pass_def v_snapshot_def check_token_symbols_unique_def
        check_wallets_def check_pools_def check_stakes_def block_txs_ok_def tx_fields_ok_def
        v_tx_def is_address_valid_def ELTT_MAX_ADDRESS_LEN_def)
  have d: "list_ex (\<lambda>b. \<not> distinct (v_txs b)) (v_blocks ?s)"
    by (simp add: v_snapshot_def)
  from e validate_blockchain_duplicate[OF e d, of py_hash]
  show "earlier_checks_pass ?s
     \<and> validate_blockchain py_hash (Some ?s) = TX_REPLAY_DUPLICATE_IN_BLOCK"
    by simp
qed

end
